theory Spec2Isabelle
  imports Complex_Main
begin

section \<open>The timeline editor of voicebox (StoryTrackEditor.tsx)\<close>

text \<open>
  The development embeds the handlers of the React component \<open>StoryTrackEditor\<close>
  (\<open>app/src/components/StoriesTab/StoryTrackEditor.tsx\<close>). Every \<open>useState\<close> cell, every
  \<open>useRef\<close> cell and every store field the handlers read or write is a field of one state
  record; a handler is a function from the state (and the event's data) to the new state and
  the list of effects it issues (mutation requests, toasts).

  A TypeScript \<open>number\<close> is modelled as a \<open>real\<close>: arithmetic is exact, and the values
  \<open>NaN\<close> and \<open>Infinity\<close> do not exist. \<open>Math.round\<close>, \<open>Math.floor\<close>, \<open>Math.max\<close> and
  \<open>Math.min\<close> are the functions below.
\<close>

subsection \<open>JavaScript primitives\<close>

definition Math_round :: "real \<Rightarrow> real" where
  \<comment> \<open>\<open>Math.round\<close> rounds to the nearest integer, a half towards plus infinity.\<close>
  "Math_round x = of_int \<lfloor>x + 1 / 2\<rfloor>"

definition Math_floor :: "real \<Rightarrow> real" where
  "Math_floor x = of_int \<lfloor>x\<rfloor>"

definition Math_max :: "real \<Rightarrow> real \<Rightarrow> real" where
  "Math_max a b = (if a \<le> b then b else a)"

definition Math_min :: "real \<Rightarrow> real \<Rightarrow> real" where
  "Math_min a b = (if a \<le> b then a else b)"

definition is_integer :: "real \<Rightarrow> bool" where
  \<comment> \<open>\<open>Number.isInteger\<close>: the value has no fractional part.\<close>
  "is_integer x = (x = of_int \<lfloor>x\<rfloor>)"

definition truthy :: "string option \<Rightarrow> bool" where
  \<comment> \<open>The truth value of a \<open>string | null\<close>: \<open>null\<close> and the empty string are falsy.\<close>
  "truthy v = (case v of None \<Rightarrow> False | Some s \<Rightarrow> s \<noteq> [])"

definition or_zero :: "real option \<Rightarrow> real" where
  \<comment> \<open>\<open>v || 0\<close> on an optional number: a missing value and \<open>0\<close> both give \<open>0\<close>.\<close>
  "or_zero v = (case v of None \<Rightarrow> 0 | Some x \<Rightarrow> x)"

definition index_or :: "real list \<Rightarrow> real \<Rightarrow> real \<Rightarrow> real" where
  \<comment> \<open>\<open>xs[i] ?? d\<close>: an index that is not an integer in range reads \<open>undefined\<close>.\<close>
  "index_or xs i d =
     (if is_integer i \<and> 0 \<le> i \<and> i < real (length xs) then xs ! nat \<lfloor>i\<rfloor> else d)"

subsection \<open>Constants of the component\<close>

definition TRACK_HEIGHT :: real where "TRACK_HEIGHT = 48"
definition TIME_RULER_HEIGHT :: real where "TIME_RULER_HEIGHT = 24"
definition MIN_PIXELS_PER_SECOND :: real where "MIN_PIXELS_PER_SECOND = 10"
definition MAX_PIXELS_PER_SECOND :: real where "MAX_PIXELS_PER_SECOND = 200"
definition DEFAULT_PIXELS_PER_SECOND :: real where "DEFAULT_PIXELS_PER_SECOND = 50"
definition DEFAULT_TRACKS :: "real list" where "DEFAULT_TRACKS = [1, 0, - 1]"
definition MIN_EDITOR_HEIGHT :: real where "MIN_EDITOR_HEIGHT = 120"
definition MAX_EDITOR_HEIGHT :: real where "MAX_EDITOR_HEIGHT = 500"

subsection \<open>Time/pixel mapping and zoom\<close>

definition msToPixels :: "real \<Rightarrow> real \<Rightarrow> real" where
  \<comment> \<open>The first argument is the state cell \<open>pixelsPerSecond\<close> the callback closes over.\<close>
  "msToPixels pps ms = (ms / 1000) * pps"

definition pixelsToMs :: "real \<Rightarrow> real \<Rightarrow> real" where
  "pixelsToMs pps px = (px / pps) * 1000"

definition handleZoomIn :: "real \<Rightarrow> real" where
  "handleZoomIn prev = Math_min (prev * 1.5) MAX_PIXELS_PER_SECOND"

definition handleZoomOut :: "real \<Rightarrow> real" where
  "handleZoomOut prev = Math_max (prev / 1.5) MIN_PIXELS_PER_SECOND"

subsection \<open>Clips, the component's state and its effects\<close>

text \<open>
  The declaration of \<open>StoryItemDetail\<close> (\<open>@/lib/api/types\<close>) is not among the sources; the
  record has the fields the component reads. The two trim fields are optional, as the
  component's \<open>item.trim_start_ms || 0\<close> allows.
\<close>

record StoryItemDetail =
  item_id :: string
  track :: real
  start_time_ms :: real
  duration :: real
  trim_start_ms :: "real option"
  trim_end_ms :: "real option"
  profile_name :: string
  generation_id :: string

datatype trim_side = SideStart | SideEnd

record point =
  pt_x :: real
  pt_y :: real

record trim_values =
  tv_trim_start_ms :: real
  tv_trim_end_ms :: real

record trim_ref =
  ref_item :: StoryItemDetail
  initialTrimStart :: real
  initialTrimEnd :: real

text \<open>What the handlers read of the scrollable timeline element (\<open>tracksRef.current\<close>).\<close>

record tracks_element =
  rect_left :: real
  rect_top :: real
  scrollLeft :: real
  clientWidth :: real

record editor =
  pixelsPerSecond :: real
  draggingItem :: "string option"
  dragOffset :: point
  dragPosition :: point
  isResizing :: bool
  containerWidth :: real
  resizeStartY :: real
  resizeStartHeight :: real
  selectedClipId :: "string option"
  trimmingItem :: "string option"
  trimSide :: "trim_side option"
  trimStartX :: real
  tempTrimValues :: "trim_values option"
  trimStartItemRef :: "trim_ref option"
  editorHeight :: real
  isPlaying :: bool
  currentTimeMs :: real
  playbackStoryId :: "string option"
  tracksRef :: "tracks_element option"

text \<open>
  A mutation request carries the story id, the item id and the data; its options are an
  \<open>onSuccess\<close> callback (only split and delete have one: it clears the selection) and an
  \<open>onError\<close> callback that shows a toast with a fixed title and the error's message.
\<close>

datatype mutation =
  MoveItem string string real real
| TrimItem string string real real
| SplitItem string string real
| DuplicateItem string string
| RemoveItem string string

datatype success_action = NoAction | ClearSelection

record toast =
  toast_title :: string
  toast_description :: string

record request =
  payload :: mutation
  onSuccess :: success_action
  onErrorTitle :: string

datatype effect = Mutate request | Toast toast

datatype outcome = Succeeded | Failed string

definition settle :: "request \<Rightarrow> outcome \<Rightarrow> editor \<Rightarrow> editor \<times> effect list" where
  \<comment> \<open>The callbacks of a request, run when the backend has answered.\<close>
  "settle r out s =
     (case out of
        Succeeded \<Rightarrow>
          (case onSuccess r of
             NoAction \<Rightarrow> (s, [])
           | ClearSelection \<Rightarrow> (s\<lparr>selectedClipId := None\<rparr>, []))
      | Failed msg \<Rightarrow>
          (s, [Toast \<lparr>toast_title = onErrorTitle r, toast_description = msg\<rparr>]))"

primrec requests :: "effect list \<Rightarrow> request list" where
  "requests [] = []"
| "requests (e # es) = (case e of Mutate r \<Rightarrow> r # requests es | Toast t \<Rightarrow> requests es)"

primrec toasts :: "effect list \<Rightarrow> toast list" where
  "toasts [] = []"
| "toasts (e # es) = (case e of Mutate r \<Rightarrow> toasts es | Toast t \<Rightarrow> t # toasts es)"

definition scrollOffset :: "editor \<Rightarrow> real option" where
  \<comment> \<open>\<open>tracksRef.current?.scrollLeft\<close>\<close>
  "scrollOffset s = map_option scrollLeft (tracksRef s)"

subsection \<open>Derived layout values\<close>

definition tracks_of :: "StoryItemDetail list \<Rightarrow> real list" where
  \<comment> \<open>\<open>tracks\<close>: the distinct values of the default lanes and the clips' lanes, descending.\<close>
  "tracks_of items = rev (sort (remdups (DEFAULT_TRACKS @ map track items)))"

definition getEffectiveDuration :: "StoryItemDetail \<Rightarrow> real" where
  "getEffectiveDuration item =
     duration item * 1000 - or_zero (trim_start_ms item) - or_zero (trim_end_ms item)"

definition totalDurationMs :: "StoryItemDetail list \<Rightarrow> real" where
  "totalDurationMs items =
     (if length items = 0 then 10000
      else fold Math_max (map (\<lambda>item. start_time_ms item + getEffectiveDuration item) items) 10000)"

primrec indexOf :: "real list \<Rightarrow> real \<Rightarrow> real" where
  "indexOf [] v = - 1"
| "indexOf (a # as) v =
     (if a = v then 0 else (if indexOf as v < 0 then - 1 else indexOf as v + 1))"

definition getTrackIndex :: "real list \<Rightarrow> real \<Rightarrow> real" where
  "getTrackIndex tracks trackNumber = indexOf tracks trackNumber"

record clip_style =
  style_width :: real
  style_left :: real
  style_top :: real
  style_height :: real

definition getClipStyle :: "editor \<Rightarrow> real list \<Rightarrow> StoryItemDetail \<Rightarrow> clip_style" where
  "getClipStyle s tracks item =
     (let isDragging = (draggingItem s = Some (item_id item));
          trackIndex = getTrackIndex tracks (track item);
          effectiveDuration = getEffectiveDuration item
      in \<lparr>style_width = msToPixels (pixelsPerSecond s) effectiveDuration,
          style_left = (if isDragging then pt_x (dragPosition s)
                        else msToPixels (pixelsPerSecond s) (start_time_ms item)),
          style_top = (if isDragging then pt_y (dragPosition s) else trackIndex * TRACK_HEIGHT),
          style_height = TRACK_HEIGHT - 4\<rparr>)"

definition displayTrim :: "editor \<Rightarrow> StoryItemDetail \<Rightarrow> trim_values" where
  \<comment> \<open>\<open>displayTrimStart\<close> and \<open>displayTrimEnd\<close> of the clip loop of the render.\<close>
  "displayTrim s item =
     (case (if trimmingItem s = Some (item_id item) then tempTrimValues s else None) of
        Some v \<Rightarrow> v
      | None \<Rightarrow> \<lparr>tv_trim_start_ms = or_zero (trim_start_ms item),
                  tv_trim_end_ms = or_zero (trim_end_ms item)\<rparr>)"

record view =
  view_tracks :: "real list"
  view_clips :: "(string \<times> clip_style) list"
  view_trim_handles :: "string list"
  view_clip_controls :: bool
  view_playheadLeft :: real
  view_timelineWidth :: real
  view_tracksAreaHeight :: real
  view_timelineContainerHeight :: real

definition StoryTrackEditor :: "editor \<Rightarrow> StoryItemDetail list \<Rightarrow> view option" where
  \<comment> \<open>The value the component returns: \<open>None\<close> is \<open>null\<close>, nothing is rendered.\<close>
  "StoryTrackEditor s items =
     (if length items = 0 then None
      else
        (let tracks = tracks_of items;
             contentWidth = (totalDurationMs items / 1000) * pixelsPerSecond s + 200
         in Some \<lparr>
              view_tracks = tracks,
              view_clips =
                map (\<lambda>item.
                      (item_id item,
                       getClipStyle s tracks
                         (item\<lparr>trim_start_ms := Some (tv_trim_start_ms (displayTrim s item)),
                               trim_end_ms := Some (tv_trim_end_ms (displayTrim s item))\<rparr>)))
                    items,
              view_trim_handles =
                map item_id (filter (\<lambda>item. selectedClipId s = Some (item_id item)) items),
              view_clip_controls = truthy (selectedClipId s),
              view_playheadLeft = msToPixels (pixelsPerSecond s) (currentTimeMs s),
              view_timelineWidth = Math_max contentWidth (containerWidth s),
              view_tracksAreaHeight = real (length tracks) * TRACK_HEIGHT,
              view_timelineContainerHeight = editorHeight s - 40\<rparr>))"

subsection \<open>Panel resize\<close>

definition handleResizeStart :: "editor \<Rightarrow> real \<Rightarrow> editor" where
  "handleResizeStart s clientY =
     s\<lparr>isResizing := True, resizeStartY := clientY, resizeStartHeight := editorHeight s\<rparr>"

definition handleResizeMove :: "editor \<Rightarrow> real \<Rightarrow> editor" where
  "handleResizeMove s clientY =
     (if \<not> isResizing s then s
      else
        (let deltaY = resizeStartY s - clientY;
             newHeight = Math_min MAX_EDITOR_HEIGHT
                           (Math_max MIN_EDITOR_HEIGHT (resizeStartHeight s + deltaY))
         in s\<lparr>editorHeight := newHeight\<rparr>))"

definition handleResizeEnd :: "editor \<Rightarrow> editor" where
  "handleResizeEnd s = s\<lparr>isResizing := False\<rparr>"

subsection \<open>Selection and trim\<close>

definition handleClipClick :: "editor \<Rightarrow> StoryItemDetail \<Rightarrow> editor" where
  "handleClipClick s item =
     (if truthy (draggingItem s) \<or> truthy (trimmingItem s) then s
      else s\<lparr>selectedClipId := Some (item_id item)\<rparr>)"

definition handleTrimStart :: "editor \<Rightarrow> StoryItemDetail \<Rightarrow> trim_side \<Rightarrow> real \<Rightarrow> editor" where
  "handleTrimStart s item side clientX =
     (case tracksRef s of
        None \<Rightarrow> s
      | Some el \<Rightarrow>
          s\<lparr>trimmingItem := Some (item_id item),
            trimSide := Some side,
            selectedClipId := Some (item_id item),
            trimStartX := clientX,
            trimStartItemRef :=
              Some \<lparr>ref_item = item,
                    initialTrimStart = or_zero (trim_start_ms item),
                    initialTrimEnd = or_zero (trim_end_ms item)\<rparr>\<rparr>)"

definition trimMoveValues :: "real \<Rightarrow> trim_side \<Rightarrow> trim_ref \<Rightarrow> real \<Rightarrow> trim_values" where
  \<comment> \<open>\<open>newTrimStart\<close> and \<open>newTrimEnd\<close> of \<open>handleTrimMove\<close>, from the signed delta in ms.\<close>
  "trimMoveValues deltaMs side r originalDurationMs =
     (case side of
        SideStart \<Rightarrow>
          \<lparr>tv_trim_start_ms =
             Math_round
               (Math_max 0
                  (Math_min (initialTrimStart r + deltaMs)
                     (originalDurationMs - initialTrimEnd r - 100))),
           tv_trim_end_ms = initialTrimEnd r\<rparr>
      | SideEnd \<Rightarrow>
          \<lparr>tv_trim_start_ms = initialTrimStart r,
           tv_trim_end_ms =
             Math_round
               (Math_max 0
                  (Math_min (initialTrimEnd r - deltaMs)
                     (originalDurationMs - initialTrimStart r - 100)))\<rparr>)"

definition handleTrimMove :: "editor \<Rightarrow> real \<Rightarrow> editor" where
  "handleTrimMove s clientX =
     (if \<not> truthy (trimmingItem s) then s
      else
        (case trimSide s of
           None \<Rightarrow> s
         | Some side \<Rightarrow>
             (case trimStartItemRef s of
                None \<Rightarrow> s
              | Some r \<Rightarrow>
                  (let deltaX = clientX - trimStartX s;
                       deltaMs = pixelsToMs (pixelsPerSecond s) deltaX;
                       originalDurationMs = duration (ref_item r) * 1000;
                       new = trimMoveValues deltaMs side r originalDurationMs
                   in if tv_trim_start_ms new + tv_trim_end_ms new \<ge> originalDurationMs - 100
                      then s
                      else s\<lparr>tempTrimValues := Some new\<rparr>))))"

definition trimReset :: "editor \<Rightarrow> editor" where
  \<comment> \<open>The four assignments that end \<open>handleTrimEnd\<close> on both of its paths.\<close>
  "trimReset s =
     s\<lparr>trimmingItem := None, trimSide := None, tempTrimValues := None,
       trimStartItemRef := None\<rparr>"

definition handleTrimEnd :: "string \<Rightarrow> editor \<Rightarrow> editor \<times> effect list" where
  "handleTrimEnd storyId s =
     (case trimmingItem s of
        None \<Rightarrow> (trimReset s, [])
      | Some tid \<Rightarrow>
          (if tid = [] then (trimReset s, [])
           else
             (case trimSide s of
                None \<Rightarrow> (trimReset s, [])
              | Some side \<Rightarrow>
                  (case trimStartItemRef s of
                     None \<Rightarrow> (trimReset s, [])
                   | Some r \<Rightarrow>
                       (let finalTrimStart =
                              Math_round
                                (case tempTrimValues s of
                                   Some v \<Rightarrow> tv_trim_start_ms v
                                 | None \<Rightarrow> initialTrimStart r);
                            finalTrimEnd =
                              Math_round
                                (case tempTrimValues s of
                                   Some v \<Rightarrow> tv_trim_end_ms v
                                 | None \<Rightarrow> initialTrimEnd r)
                        in (trimReset s,
                            if finalTrimStart \<noteq> initialTrimStart r
                               \<or> finalTrimEnd \<noteq> initialTrimEnd r
                            then [Mutate \<lparr>payload = TrimItem storyId tid finalTrimStart finalTrimEnd,
                                          onSuccess = NoAction,
                                          onErrorTitle = ''Failed to trim clip''\<rparr>]
                            else []))))))"

subsection \<open>Split\<close>

definition handleSplit :: "string \<Rightarrow> StoryItemDetail list \<Rightarrow> editor \<Rightarrow> editor \<times> effect list" where
  "handleSplit storyId items s =
     (case selectedClipId s of
        None \<Rightarrow> (s, [])
      | Some sel \<Rightarrow>
          (if sel = [] then (s, [])
           else
             (case find (\<lambda>i. item_id i = sel) items of
                None \<Rightarrow> (s, [])
              | Some item \<Rightarrow>
                  (let splitTimeMs = currentTimeMs s - start_time_ms item;
                       effectiveDuration = getEffectiveDuration item
                   in if splitTimeMs \<le> 0 \<or> splitTimeMs \<ge> effectiveDuration
                      then (s, [Toast \<lparr>toast_title = ''Invalid split point'',
                                        toast_description =
                                          ''Playhead must be within the selected clip''\<rparr>])
                      else (s, [Mutate \<lparr>payload = SplitItem storyId sel splitTimeMs,
                                         onSuccess = ClearSelection,
                                         onErrorTitle = ''Failed to split clip''\<rparr>])))))"

subsection \<open>Drag\<close>

definition handleDragStart ::
  "editor \<Rightarrow> StoryItemDetail \<Rightarrow> real \<Rightarrow> real \<Rightarrow> real \<Rightarrow> real \<Rightarrow> editor" where
  \<comment> \<open>\<open>targetLeft\<close>, \<open>targetTop\<close>: the bounding rectangle of the pressed clip button.\<close>
  "handleDragStart s item clientX clientY targetLeft targetTop =
     (case tracksRef s of
        None \<Rightarrow> s
      | Some el \<Rightarrow>
          s\<lparr>dragOffset := \<lparr>pt_x = clientX - targetLeft, pt_y = clientY - targetTop\<rparr>,
            dragPosition :=
              \<lparr>pt_x = targetLeft - rect_left el + scrollLeft el,
               pt_y = targetTop - rect_top el - TIME_RULER_HEIGHT\<rparr>,
            draggingItem := Some (item_id item)\<rparr>)"

definition handleDragMove :: "editor \<Rightarrow> real \<Rightarrow> real \<Rightarrow> editor" where
  "handleDragMove s clientX clientY =
     (if \<not> truthy (draggingItem s) then s
      else
        (case tracksRef s of
           None \<Rightarrow> s
         | Some el \<Rightarrow>
             (let x = clientX - rect_left el + scrollLeft el - pt_x (dragOffset s);
                  y = clientY - rect_top el - pt_y (dragOffset s) - TIME_RULER_HEIGHT
              in s\<lparr>dragPosition := \<lparr>pt_x = Math_max 0 x, pt_y = y\<rparr>\<rparr>)))"

definition dropTimeMs :: "editor \<Rightarrow> real" where
  \<comment> \<open>\<open>newTimeMs\<close> of \<open>handleDragEnd\<close>.\<close>
  "dropTimeMs s =
     Math_max 0 (Math_round (pixelsToMs (pixelsPerSecond s) (pt_x (dragPosition s))))"

definition dropTrack :: "editor \<Rightarrow> real list \<Rightarrow> real" where
  \<comment> \<open>\<open>newTrack\<close> of \<open>handleDragEnd\<close>.\<close>
  "dropTrack s tracks =
     (let trackIndex = Math_floor (pt_y (dragPosition s) / TRACK_HEIGHT);
          clampedTrackIndex = Math_max 0 (Math_min trackIndex (real (length tracks) - 1))
      in index_or tracks clampedTrackIndex 0)"

definition handleDragEnd :: "string \<Rightarrow> StoryItemDetail list \<Rightarrow> editor \<Rightarrow> editor \<times> effect list" where
  "handleDragEnd storyId items s =
     (case draggingItem s of
        None \<Rightarrow> (s\<lparr>draggingItem := None\<rparr>, [])
      | Some did \<Rightarrow>
          (if did = [] \<or> tracksRef s = None then (s\<lparr>draggingItem := None\<rparr>, [])
           else
             (case find (\<lambda>i. item_id i = did) items of
                None \<Rightarrow> (s\<lparr>draggingItem := None\<rparr>, [])
              | Some item \<Rightarrow>
                  (let newTimeMs = dropTimeMs s;
                       newTrack = dropTrack s (tracks_of items)
                   in (s\<lparr>draggingItem := None\<rparr>,
                       if newTimeMs \<noteq> start_time_ms item \<or> newTrack \<noteq> track item
                       then [Mutate \<lparr>payload = MoveItem storyId (item_id item) newTimeMs newTrack,
                                     onSuccess = NoAction,
                                     onErrorTitle = ''Failed to move item''\<rparr>]
                       else [])))))"

subsection \<open>Auto-scroll while playing\<close>

definition autoScroll :: "string \<Rightarrow> editor \<Rightarrow> editor" where
  \<comment> \<open>The effect that follows the playhead; it assigns \<open>container.scrollLeft\<close>.\<close>
  "autoScroll storyId s =
     (let isCurrentlyPlaying = (isPlaying s \<and> playbackStoryId s = Some storyId)
      in if \<not> isCurrentlyPlaying then s
         else
           (case tracksRef s of
              None \<Rightarrow> s
            | Some el \<Rightarrow>
                (let playheadLeft = msToPixels (pixelsPerSecond s) (currentTimeMs s);
                     halfwayPoint = scrollLeft el + clientWidth el / 2
                 in if playheadLeft > halfwayPoint
                    then s\<lparr>tracksRef := Some (el\<lparr>scrollLeft := playheadLeft - clientWidth el / 2\<rparr>)\<rparr>
                    else s)))"

subsection \<open>The pointer events and their dispatch\<close>

text \<open>
  The events are those of the pointer: presses, clicks, moves and releases. A press reaches
  one element: a clip button (\<open>handleDragStart\<close>), a trim handle, which is
  rendered only for the selected clip (\<open>handleTrimStart\<close>), or the resize handle
  (\<open>handleResizeStart\<close>). A move or a release reaches the listeners that are attached at that
  moment: those of the timeline element when the pointer is inside it and a clip is being
  dragged, and those of the window while a trim or a resize is on. The handlers that run on
  one event write disjoint fields, so the order in which they run does not matter.
\<close>

datatype event =
  ClipMouseDown StoryItemDetail real real real real
| TrimHandleMouseDown StoryItemDetail trim_side real
| ResizeHandleMouseDown real
| ClipClick StoryItemDetail
| MouseMove bool real real
| MouseUp bool
| MouseLeave
| ZoomInClick
| ZoomOutClick

definition step ::
  "string \<Rightarrow> StoryItemDetail list \<Rightarrow> editor \<Rightarrow> event \<Rightarrow> editor \<times> effect list" where
  "step storyId items s ev =
     (case ev of
        ClipMouseDown item cx cy bl bt \<Rightarrow> (handleDragStart s item cx cy bl bt, [])
      | TrimHandleMouseDown item side cx \<Rightarrow>
          (if selectedClipId s = Some (item_id item) then (handleTrimStart s item side cx, [])
           else (s, []))
      | ResizeHandleMouseDown cy \<Rightarrow> (handleResizeStart s cy, [])
      | ClipClick item \<Rightarrow> (handleClipClick s item, [])
      | MouseMove inside cx cy \<Rightarrow>
          (let s1 = (if inside \<and> truthy (draggingItem s) then handleDragMove s cx cy else s);
               s2 = (if truthy (trimmingItem s1) then handleTrimMove s1 cx else s1);
               s3 = (if isResizing s2 then handleResizeMove s2 cy else s2)
           in (s3, []))
      | MouseUp inside \<Rightarrow>
          (let (s1, fx1) = (if inside \<and> truthy (draggingItem s)
                            then handleDragEnd storyId items s else (s, []));
               (s2, fx2) = (if truthy (trimmingItem s1)
                            then handleTrimEnd storyId s1 else (s1, []));
               s3 = (if isResizing s2 then handleResizeEnd s2 else s2)
           in (s3, fx1 @ fx2))
      | MouseLeave \<Rightarrow>
          (if truthy (draggingItem s) then handleDragEnd storyId items s else (s, []))
      | ZoomInClick \<Rightarrow> (s\<lparr>pixelsPerSecond := handleZoomIn (pixelsPerSecond s)\<rparr>, [])
      | ZoomOutClick \<Rightarrow> (s\<lparr>pixelsPerSecond := handleZoomOut (pixelsPerSecond s)\<rparr>, []))"

fun run ::
  "string \<Rightarrow> StoryItemDetail list \<Rightarrow> editor \<Rightarrow> event list \<Rightarrow> editor \<times> effect list" where
  "run storyId items s [] = (s, [])"
| "run storyId items s (ev # evs) =
     (let (s1, fx1) = step storyId items s ev;
          (s2, fx2) = run storyId items s1 evs
      in (s2, fx1 @ fx2))"

definition initial :: "real \<Rightarrow> tracks_element \<Rightarrow> editor" where
  \<comment> \<open>The state after the first render of a mounted editor; the height comes from the store.\<close>
  "initial h el =
     \<lparr>pixelsPerSecond = DEFAULT_PIXELS_PER_SECOND,
      draggingItem = None,
      dragOffset = \<lparr>pt_x = 0, pt_y = 0\<rparr>,
      dragPosition = \<lparr>pt_x = 0, pt_y = 0\<rparr>,
      isResizing = False,
      containerWidth = clientWidth el,
      resizeStartY = 0,
      resizeStartHeight = 0,
      selectedClipId = None,
      trimmingItem = None,
      trimSide = None,
      trimStartX = 0,
      tempTrimValues = None,
      trimStartItemRef = None,
      editorHeight = h,
      isPlaying = False,
      currentTimeMs = 0,
      playbackStoryId = None,
      tracksRef = Some el\<rparr>"

definition dragging :: "editor \<Rightarrow> bool" where
  "dragging s = truthy (draggingItem s)"

definition trimming :: "editor \<Rightarrow> bool" where
  "trimming s = truthy (trimmingItem s)"

definition idle :: "editor \<Rightarrow> bool" where
  "idle s = (\<not> dragging s \<and> \<not> trimming s \<and> \<not> isResizing s)"

definition active_modes :: "editor \<Rightarrow> nat" where
  "active_modes s =
     (if dragging s then 1 else 0) + (if trimming s then 1 else 0)
     + (if isResizing s then 1 else 0)"

definition is_press :: "event \<Rightarrow> bool" where
  "is_press ev =
     (case ev of
        ClipMouseDown item cx cy bl bt \<Rightarrow> True
      | TrimHandleMouseDown item side cx \<Rightarrow> True
      | ResizeHandleMouseDown cy \<Rightarrow> True
      | _ \<Rightarrow> False)"

fun presses_at_idle :: "string \<Rightarrow> StoryItemDetail list \<Rightarrow> editor \<Rightarrow> event list \<Rightarrow> bool" where
  \<comment> \<open>Every press of the trace arrives while no gesture is in progress.\<close>
  "presses_at_idle storyId items s [] = True"
| "presses_at_idle storyId items s (ev # evs) =
     ((if is_press ev then idle s else True)
      \<and> presses_at_idle storyId items (fst (step storyId items s ev)) evs)"

subsection \<open>Gestures and example data\<close>

definition resizeGesture :: "editor \<Rightarrow> real \<Rightarrow> real list \<Rightarrow> editor" where
  \<comment> \<open>A press on the resize handle at \<open>y0\<close>, then pointer moves to the positions \<open>ys\<close>.\<close>
  "resizeGesture s0 y0 ys = foldl handleResizeMove (handleResizeStart s0 y0) ys"

definition trimGesture ::
  "editor \<Rightarrow> StoryItemDetail \<Rightarrow> trim_side \<Rightarrow> real \<Rightarrow> real list \<Rightarrow> editor" where
  \<comment> \<open>A press on a trim handle of \<open>item\<close> at \<open>x0\<close>, then pointer moves to the positions \<open>xs\<close>.\<close>
  "trimGesture s0 item side x0 xs = foldl handleTrimMove (handleTrimStart s0 item side x0) xs"

abbreviation element0 :: tracks_element where
  "element0 \<equiv> \<lparr>rect_left = 64, rect_top = 600, scrollLeft = 0, clientWidth = 800\<rparr>"

abbreviation clip :: "string \<Rightarrow> real \<Rightarrow> real \<Rightarrow> real \<Rightarrow> StoryItemDetail" where
  "clip i tr st dur \<equiv>
     \<lparr>item_id = i, track = tr, start_time_ms = st, duration = dur,
      trim_start_ms = Some 0, trim_end_ms = Some 0,
      profile_name = ''voice'', generation_id = ''gen''\<rparr>"

subsection \<open>Predicates of the properties\<close>

definition trim_ok :: "real \<Rightarrow> trim_values \<Rightarrow> bool" where
  \<comment> \<open>Neither trim value is negative and at least 100 ms of the clip remain.\<close>
  "trim_ok durationMs v =
     (0 \<le> tv_trim_start_ms v \<and> 0 \<le> tv_trim_end_ms v
      \<and> tv_trim_start_ms v + tv_trim_end_ms v \<le> durationMs - 100)"

definition stored_trims :: "StoryItemDetail \<Rightarrow> trim_values" where
  "stored_trims item =
     \<lparr>tv_trim_start_ms = or_zero (trim_start_ms item),
      tv_trim_end_ms = or_zero (trim_end_ms item)\<rparr>"

definition commits_trim_ok :: "StoryItemDetail \<Rightarrow> mutation \<Rightarrow> bool" where
  \<comment> \<open>The mutation is a trim of this clip whose values satisfy \<open>trim_ok\<close>.\<close>
  "commits_trim_ok item m =
     (case m of
        MoveItem sid i t tr \<Rightarrow> False
      | TrimItem sid i a b \<Rightarrow>
          i = item_id item
          \<and> trim_ok (duration item * 1000) \<lparr>tv_trim_start_ms = a, tv_trim_end_ms = b\<rparr>
      | SplitItem sid i t \<Rightarrow> False
      | DuplicateItem sid i \<Rightarrow> False
      | RemoveItem sid i \<Rightarrow> False)"

definition move_or_trim_ok :: "real list \<Rightarrow> mutation \<Rightarrow> bool" where
  \<comment> \<open>The mutation is a move to a non-negative integral time on one of the tracks, or a
      trim to two non-negative integral values.\<close>
  "move_or_trim_ok tracks m =
     (case m of
        MoveItem sid i t tr \<Rightarrow> is_integer t \<and> 0 \<le> t \<and> tr \<in> set tracks
      | TrimItem sid i a b \<Rightarrow> is_integer a \<and> 0 \<le> a \<and> is_integer b \<and> 0 \<le> b
      | SplitItem sid i t \<Rightarrow> False
      | DuplicateItem sid i \<Rightarrow> False
      | RemoveItem sid i \<Rightarrow> False)"

definition trim_press_ok :: "event \<Rightarrow> bool" where
  \<comment> \<open>The clip whose trim handle is pressed has non-negative stored trim values.\<close>
  "trim_press_ok ev =
     (case ev of
        TrimHandleMouseDown item side cx \<Rightarrow>
          0 \<le> or_zero (trim_start_ms item) \<and> 0 \<le> or_zero (trim_end_ms item)
      | _ \<Rightarrow> True)"

definition trim_state_ok :: "editor \<Rightarrow> bool" where
  \<comment> \<open>Invariant: the provisional and the captured trim values are not negative.\<close>
  "trim_state_ok s =
     ((case tempTrimValues s of
         None \<Rightarrow> True
       | Some v \<Rightarrow> 0 \<le> tv_trim_start_ms v \<and> 0 \<le> tv_trim_end_ms v)
      \<and> (case trimStartItemRef s of
            None \<Rightarrow> True
          | Some r \<Rightarrow> 0 \<le> initialTrimStart r \<and> 0 \<le> initialTrimEnd r))"

definition gesture_inv :: "StoryItemDetail \<Rightarrow> editor \<Rightarrow> bool" where
  \<comment> \<open>Invariant of one trim gesture on \<open>item\<close>: the provisional values, when there are any,
      are integral, not negative and leave more than 100 ms; the captured clip is \<open>item\<close>.\<close>
  "gesture_inv item s =
     ((case tempTrimValues s of
         None \<Rightarrow> True
       | Some v \<Rightarrow>
           is_integer (tv_trim_start_ms v) \<and> is_integer (tv_trim_end_ms v)
           \<and> 0 \<le> tv_trim_start_ms v \<and> 0 \<le> tv_trim_end_ms v
           \<and> tv_trim_start_ms v + tv_trim_end_ms v < duration item * 1000 - 100)
      \<and> (if truthy (trimmingItem s)
          then trimmingItem s = Some (item_id item)
             \<and> trimStartItemRef s =
                 Some \<lparr>ref_item = item,
                       initialTrimStart = or_zero (trim_start_ms item),
                       initialTrimEnd = or_zero (trim_end_ms item)\<rparr>
          else tempTrimValues s = None))"

text \<open>
  The timeline element receives \<open>mouseleave\<close> when the pointer leaves it. A sequence of events
  respects this when a move or a release outside the timeline comes only after the pointer has
  left it: the flag is true from an event inside the timeline until the next \<open>mouseleave\<close>.
\<close>

definition pointer_after :: "bool \<Rightarrow> event \<Rightarrow> bool" where
  "pointer_after inside ev =
     (case ev of
        ClipMouseDown item cx cy bl bt \<Rightarrow> True
      | TrimHandleMouseDown item side cx \<Rightarrow> True
      | ResizeHandleMouseDown cy \<Rightarrow> inside
      | ClipClick item \<Rightarrow> True
      | MouseMove b cx cy \<Rightarrow> b
      | MouseUp b \<Rightarrow> b
      | MouseLeave \<Rightarrow> False
      | ZoomInClick \<Rightarrow> inside
      | ZoomOutClick \<Rightarrow> inside)"

definition left_before :: "bool \<Rightarrow> event \<Rightarrow> bool" where
  \<comment> \<open>An event outside the timeline does not arrive while the pointer is still inside.\<close>
  "left_before inside ev =
     (case ev of
        MouseMove b cx cy \<Rightarrow> (if b then True else \<not> inside)
      | MouseUp b \<Rightarrow> (if b then True else \<not> inside)
      | _ \<Rightarrow> True)"

fun leaves_delivered :: "bool \<Rightarrow> event list \<Rightarrow> bool" where
  "leaves_delivered inside [] = True"
| "leaves_delivered inside (ev # evs) =
     (left_before inside ev \<and> leaves_delivered (pointer_after inside ev) evs)"

definition no_stale_trim :: "editor \<Rightarrow> bool" where
  \<comment> \<open>Invariant: provisional trim values exist only while a trim is in progress.\<close>
  "no_stale_trim s = (trimming s \<or> tempTrimValues s = None)"

abbreviation trimmed_clip ::
  "string \<Rightarrow> real \<Rightarrow> real \<Rightarrow> real \<Rightarrow> real \<Rightarrow> real \<Rightarrow> StoryItemDetail" where
  "trimmed_clip i tr st dur ts te \<equiv>
     \<lparr>item_id = i, track = tr, start_time_ms = st, duration = dur,
      trim_start_ms = Some ts, trim_end_ms = Some te,
      profile_name = ''voice'', generation_id = ''gen''\<rparr>"

subsection \<open>Seeking by a click on the timeline\<close>

definition seek :: "real \<Rightarrow> editor \<Rightarrow> editor" where
  \<comment> \<open>Modelled from the spec: the store's \<open>seek\<close> is not among the sources; seeking "sets
      \<open>currentTimeMs\<close> directly".\<close>
  "seek timeMs s = s\<lparr>currentTimeMs := timeMs\<rparr>"

definition handleTimelineClick :: "editor \<Rightarrow> real \<Rightarrow> editor" where
  "handleTimelineClick s clientX =
     (case tracksRef s of
        None \<Rightarrow> s
      | Some el \<Rightarrow>
          (if truthy (draggingItem s) \<or> truthy (trimmingItem s) then s
           else
             (let x = clientX - rect_left el + scrollLeft el;
                  timeMs = Math_max 0 (pixelsToMs (pixelsPerSecond s) x)
              in (seek timeMs s)\<lparr>selectedClipId := None\<rparr>)))"

section \<open>Properties\<close>

subsection \<open>Primitives\<close>

lemma Math_round_integer: "is_integer (Math_round x)"
  by (simp add: is_integer_def Math_round_def)

lemma Math_round_nonneg: "0 \<le> x \<Longrightarrow> 0 \<le> Math_round x"
  by (simp add: Math_round_def)

lemma Math_round_of_int: "Math_round (of_int n) = of_int n"
proof -
  have "\<lfloor>(of_int n :: real) + 1 / 2\<rfloor> = n" by linarith
  then show ?thesis by (simp add: Math_round_def)
qed

lemma Math_round_idem: "Math_round (Math_round x) = Math_round x"
  unfolding Math_round_def [of x] by (rule Math_round_of_int)

lemma Math_round_fixes_integer: "is_integer x \<Longrightarrow> Math_round x = x"
  by (metis is_integer_def Math_round_of_int)

subsection \<open>Zoom\<close>

text \<open>
  C5. A zoom-in step multiplies \<open>pixelsPerSecond\<close> by 1.5 and caps the result at 200; a
  zoom-out step divides it by 1.5 and floors the result at 10. From the default 50 the first
  three zoom-in steps give 75, 112.5 and 168.75, each below the cap and so equal to the plain
  product, and 168.75 is \<open>50 * 1.5^3\<close>; the fourth product, 253.125, exceeds 200 and the fourth
  step gives 200.
\<close>

theorem zoom_steps_from_default:
  "handleZoomIn p = min (p * 1.5) 200
   \<and> handleZoomOut p = max (p / 1.5) 10
   \<and> handleZoomIn DEFAULT_PIXELS_PER_SECOND = 50 * 1.5
   \<and> handleZoomIn (handleZoomIn DEFAULT_PIXELS_PER_SECOND) = 50 * 1.5 ^ 2
   \<and> handleZoomIn (handleZoomIn (handleZoomIn DEFAULT_PIXELS_PER_SECOND)) = 50 * 1.5 ^ 3
   \<and> handleZoomIn (handleZoomIn (handleZoomIn DEFAULT_PIXELS_PER_SECOND)) = 168.75
   \<and> handleZoomIn (handleZoomIn (handleZoomIn DEFAULT_PIXELS_PER_SECOND)) < MAX_PIXELS_PER_SECOND
   \<and> MAX_PIXELS_PER_SECOND
       < handleZoomIn (handleZoomIn (handleZoomIn DEFAULT_PIXELS_PER_SECOND)) * 1.5
   \<and> handleZoomIn (handleZoomIn (handleZoomIn (handleZoomIn DEFAULT_PIXELS_PER_SECOND)))
       = MAX_PIXELS_PER_SECOND"
  by (simp add: handleZoomIn_def handleZoomOut_def Math_min_def Math_max_def
      MAX_PIXELS_PER_SECOND_def MIN_PIXELS_PER_SECOND_def DEFAULT_PIXELS_PER_SECOND_def
      min_def max_def power2_eq_square power3_eq_cube)

subsection \<open>Coordinate mapping\<close>

text \<open>
  C6. For every zoom value in the range from 10 to 200 the two mappings are inverses of each
  other, in both directions. Numbers are reals here, so the equalities are exact; the
  rounding of floating-point arithmetic is outside the model.
\<close>

theorem pixelsToMs_msToPixels_inverse:
  assumes "MIN_PIXELS_PER_SECOND \<le> pps" and "pps \<le> MAX_PIXELS_PER_SECOND"
  shows "pixelsToMs pps (msToPixels pps x) = x \<and> msToPixels pps (pixelsToMs pps x) = x"
  using assms by (simp add: pixelsToMs_def msToPixels_def MIN_PIXELS_PER_SECOND_def)

theorem pixelsToMs_msToPixels_inverse_witness:
  "MIN_PIXELS_PER_SECOND \<le> 75 \<and> 75 \<le> MAX_PIXELS_PER_SECOND
   \<and> msToPixels 75 1000 = 75
   \<and> pixelsToMs 75 (msToPixels 75 1000) = 1000
   \<and> msToPixels 75 (pixelsToMs 75 1000) = 1000"
proof -
  have lo: "MIN_PIXELS_PER_SECOND \<le> 75"
    by (simp add: MIN_PIXELS_PER_SECOND_def)
  have hi: "75 \<le> MAX_PIXELS_PER_SECOND"
    by (simp add: MAX_PIXELS_PER_SECOND_def)
  have "msToPixels 75 1000 = 75"
    by (simp add: msToPixels_def)
  with lo hi pixelsToMs_msToPixels_inverse [OF lo hi, of 1000] show ?thesis
    by simp
qed

subsection \<open>Panel resize\<close>

lemma handleResizeMove_keeps:
  "isResizing (handleResizeMove s y) = isResizing s
   \<and> resizeStartY (handleResizeMove s y) = resizeStartY s
   \<and> resizeStartHeight (handleResizeMove s y) = resizeStartHeight s"
  by (simp add: handleResizeMove_def Let_def)

lemma resizeGesture_fields:
  "isResizing (resizeGesture s0 y0 ys)
   \<and> resizeStartY (resizeGesture s0 y0 ys) = y0
   \<and> resizeStartHeight (resizeGesture s0 y0 ys) = editorHeight s0"
proof (induction ys rule: rev_induct)
  case Nil
  show ?case by (simp add: resizeGesture_def handleResizeStart_def)
next
  case (snoc y ys)
  then show ?case by (simp add: resizeGesture_def handleResizeMove_keeps)
qed

lemma resizeGesture_last:
  "editorHeight (resizeGesture s0 y0 (ys @ [y]))
     = Math_min MAX_EDITOR_HEIGHT (Math_max MIN_EDITOR_HEIGHT (editorHeight s0 + (y0 - y)))"
proof -
  have "resizeGesture s0 y0 (ys @ [y]) = handleResizeMove (resizeGesture s0 y0 ys) y"
    by (simp add: resizeGesture_def)
  then show ?thesis
    using resizeGesture_fields [of s0 y0 ys] by (simp add: handleResizeMove_def Let_def)
qed

text \<open>
  C7. In a resize gesture (a press at height \<open>y0\<close> while the editor is \<open>editorHeight s0\<close> high,
  then any pointer moves), the move to the position \<open>y\<close> sets the height to the start height
  plus \<open>y0 - y\<close>, clamped to the range from 120 to 500. The height is therefore inside that
  range, a lower pointer position (a larger \<open>y\<close>) never gives a larger height, and it gives a
  strictly smaller one as long as neither bound is hit.
\<close>

theorem resize_move_sets_clamped_height:
  "editorHeight (resizeGesture s0 y0 (ys @ [y])) = min 500 (max 120 (editorHeight s0 + (y0 - y)))
   \<and> MIN_EDITOR_HEIGHT \<le> editorHeight (resizeGesture s0 y0 (ys @ [y]))
   \<and> editorHeight (resizeGesture s0 y0 (ys @ [y])) \<le> MAX_EDITOR_HEIGHT
   \<and> (y \<le> y' \<longrightarrow>
        editorHeight (resizeGesture s0 y0 (ys @ [y'])) \<le> editorHeight (resizeGesture s0 y0 (ys @ [y])))
   \<and> (y < y' \<and> 120 \<le> editorHeight s0 + (y0 - y') \<and> editorHeight s0 + (y0 - y) \<le> 500 \<longrightarrow>
        editorHeight (resizeGesture s0 y0 (ys @ [y'])) < editorHeight (resizeGesture s0 y0 (ys @ [y])))"
  unfolding resizeGesture_last
  by (simp add: Math_min_def Math_max_def MAX_EDITOR_HEIGHT_def MIN_EDITOR_HEIGHT_def
      min_def max_def)

theorem resize_move_sets_clamped_height_witness:
  "(350::real) \<le> 380
   \<and> editorHeight (resizeGesture (initial 300 element0) 400 [390, 350]) = 350
   \<and> editorHeight (resizeGesture (initial 300 element0) 400 [390, 380]) = 320
   \<and> editorHeight (resizeGesture (initial 300 element0) 400 [390, 380])
       < editorHeight (resizeGesture (initial 300 element0) 400 [390, 350])
   \<and> editorHeight (resizeGesture (initial 300 element0) 400 [390, 1000]) = MIN_EDITOR_HEIGHT
   \<and> editorHeight (resizeGesture (initial 300 element0) 400 [390, - 1000]) = MAX_EDITOR_HEIGHT"
proof -
  have h: "editorHeight (initial 300 element0) = 300"
    by (simp add: initial_def)
  show ?thesis
    using resize_move_sets_clamped_height [of "initial 300 element0" 400 "[390]" 350 380]
      resize_move_sets_clamped_height [of "initial 300 element0" 400 "[390]" 380 380]
      resize_move_sets_clamped_height [of "initial 300 element0" 400 "[390]" 1000 1000]
      resize_move_sets_clamped_height [of "initial 300 element0" 400 "[390]" "- 1000" 1000]
    by (simp add: h MIN_EDITOR_HEIGHT_def MAX_EDITOR_HEIGHT_def)
qed

subsection \<open>Auto-scroll\<close>

text \<open>
  C8. One run of the auto-scroll effect on a mounted timeline, while this story is playing:
  the scroll offset stays as it is when the playhead is at or left of the middle of the
  viewport, and becomes the playhead position minus half the viewport width otherwise. Whether
  playing or not, the offset after the run is never smaller than before.
\<close>

theorem autoScroll_only_right:
  assumes "tracksRef s = Some el"
  shows "(isPlaying s \<and> playbackStoryId s = Some storyId \<longrightarrow>
            scrollOffset (autoScroll storyId s) =
              Some (if msToPixels (pixelsPerSecond s) (currentTimeMs s)
                         \<le> scrollLeft el + clientWidth el / 2
                    then scrollLeft el
                    else msToPixels (pixelsPerSecond s) (currentTimeMs s) - clientWidth el / 2))
         \<and> (case scrollOffset (autoScroll storyId s) of
               Some x \<Rightarrow> scrollLeft el \<le> x
             | None \<Rightarrow> False)"
  using assms by (simp add: autoScroll_def scrollOffset_def Let_def)

theorem autoScroll_only_right_witness:
  "tracksRef ((initial 300 element0)
       \<lparr>isPlaying := True, playbackStoryId := Some ''s1'', currentTimeMs := 10000\<rparr>)
     = Some element0
   \<and> scrollOffset (autoScroll ''s1'' ((initial 300 element0)
       \<lparr>isPlaying := True, playbackStoryId := Some ''s1'', currentTimeMs := 10000\<rparr>)) = Some 100
   \<and> scrollOffset (autoScroll ''s1'' ((initial 300 element0)
       \<lparr>isPlaying := True, playbackStoryId := Some ''s1'', currentTimeMs := 8000\<rparr>)) = Some 0"
proof -
  let ?s = "\<lambda>t. (initial 300 element0)
       \<lparr>isPlaying := True, playbackStoryId := Some ''s1'', currentTimeMs := t\<rparr>"
  have m: "tracksRef (?s t) = Some element0" for t
    by (simp add: initial_def)
  show ?thesis
    using autoScroll_only_right [OF m [of 10000], of "''s1''"]
      autoScroll_only_right [OF m [of 8000], of "''s1''"]
    by (simp add: initial_def msToPixels_def DEFAULT_PIXELS_PER_SECOND_def)
qed

subsection \<open>Rendering\<close>

text \<open>
  C10. With an empty clip list the component returns \<open>null\<close>: no toolbar, no playback controls
  and no timeline are rendered; with any other clip list it returns the editor.
\<close>

theorem StoryTrackEditor_empty_renders_nothing:
  "StoryTrackEditor s [] = None \<and> (StoryTrackEditor s items = None) = (items = [])"
  by (simp add: StoryTrackEditor_def Let_def)

subsection \<open>Split\<close>

text \<open>
  C4. Splitting the selected clip: the offset is the playhead time minus the clip's start time.
  When the offset is at most 0, or at least the clip's effective duration (its duration in ms
  minus its start trim and minus its end trim, a missing trim counting as 0), the handler shows
  the toast "Invalid split point" and sends no request. Otherwise it sends exactly one request,
  a split of the selected clip at that offset, and shows no toast; when that request succeeds,
  its callback clears the selection.
\<close>

theorem handleSplit_checks_playhead:
  assumes "selectedClipId s = Some sel" and "sel \<noteq> []"
    and "find (\<lambda>i. item_id i = sel) items = Some item"
  shows "(if currentTimeMs s - start_time_ms item \<le> 0
             \<or> currentTimeMs s - start_time_ms item
                 \<ge> duration item * 1000
                     - (case trim_start_ms item of None \<Rightarrow> 0 | Some t \<Rightarrow> t)
                     - (case trim_end_ms item of None \<Rightarrow> 0 | Some t \<Rightarrow> t)
          then requests (snd (handleSplit storyId items s)) = []
             \<and> toasts (snd (handleSplit storyId items s))
                 = [\<lparr>toast_title = ''Invalid split point'',
                     toast_description = ''Playhead must be within the selected clip''\<rparr>]
          else toasts (snd (handleSplit storyId items s)) = []
             \<and> map payload (requests (snd (handleSplit storyId items s)))
                 = [SplitItem storyId sel (currentTimeMs s - start_time_ms item)]
             \<and> list_all (\<lambda>r. selectedClipId (fst (settle r Succeeded s')) = None)
                 (requests (snd (handleSplit storyId items s))))
         \<and> fst (handleSplit storyId items s) = s"
  using assms
  by (simp add: handleSplit_def Let_def settle_def getEffectiveDuration_def or_zero_def)

text \<open>
  The clip of the example lasts 7 s, is trimmed by 1 s at each end and starts at 2000 ms, so it
  spans 2000 ms to 7000 ms. A playhead at 4000 ms splits it at 2000; playheads at 1000 ms
  (before the clip), at 7000 ms (its end) and at 7500 ms (inside the untrimmed audio, in the
  tail that the end trim removes) are refused.
\<close>

theorem handleSplit_checks_playhead_witness:
  "find (\<lambda>i. item_id i = ''a'') [trimmed_clip ''a'' 0 2000 7 1000 1000]
     = Some (trimmed_clip ''a'' 0 2000 7 1000 1000)
   \<and> map payload (requests (snd (handleSplit ''s1'' [trimmed_clip ''a'' 0 2000 7 1000 1000]
        ((initial 300 element0)\<lparr>selectedClipId := Some ''a'', currentTimeMs := 4000\<rparr>))))
       = [SplitItem ''s1'' ''a'' 2000]
   \<and> toasts (snd (handleSplit ''s1'' [trimmed_clip ''a'' 0 2000 7 1000 1000]
        ((initial 300 element0)\<lparr>selectedClipId := Some ''a'', currentTimeMs := 4000\<rparr>))) = []
   \<and> requests (snd (handleSplit ''s1'' [trimmed_clip ''a'' 0 2000 7 1000 1000]
        ((initial 300 element0)\<lparr>selectedClipId := Some ''a'', currentTimeMs := 1000\<rparr>))) = []
   \<and> map toast_title (toasts (snd (handleSplit ''s1'' [trimmed_clip ''a'' 0 2000 7 1000 1000]
        ((initial 300 element0)\<lparr>selectedClipId := Some ''a'', currentTimeMs := 1000\<rparr>))))
       = [''Invalid split point'']
   \<and> requests (snd (handleSplit ''s1'' [trimmed_clip ''a'' 0 2000 7 1000 1000]
        ((initial 300 element0)\<lparr>selectedClipId := Some ''a'', currentTimeMs := 7000\<rparr>))) = []
   \<and> map toast_title (toasts (snd (handleSplit ''s1'' [trimmed_clip ''a'' 0 2000 7 1000 1000]
        ((initial 300 element0)\<lparr>selectedClipId := Some ''a'', currentTimeMs := 7000\<rparr>))))
       = [''Invalid split point'']
   \<and> requests (snd (handleSplit ''s1'' [trimmed_clip ''a'' 0 2000 7 1000 1000]
        ((initial 300 element0)\<lparr>selectedClipId := Some ''a'', currentTimeMs := 7500\<rparr>))) = []
   \<and> map toast_title (toasts (snd (handleSplit ''s1'' [trimmed_clip ''a'' 0 2000 7 1000 1000]
        ((initial 300 element0)\<lparr>selectedClipId := Some ''a'', currentTimeMs := 7500\<rparr>))))
       = [''Invalid split point'']"
proof -
  let ?a = "trimmed_clip ''a'' 0 2000 7 1000 1000"
  let ?s = "\<lambda>t. (initial 300 element0)\<lparr>selectedClipId := Some ''a'', currentTimeMs := t\<rparr>"
  have sel: "selectedClipId (?s t) = Some ''a''" for t
    by simp
  have ne: "''a'' \<noteq> []"
    by simp
  have f: "find (\<lambda>i. item_id i = ''a'') [?a] = Some ?a"
    by simp
  show ?thesis
    using handleSplit_checks_playhead [OF sel [of 4000] ne f, of "''s1''"]
      handleSplit_checks_playhead [OF sel [of 1000] ne f, of "''s1''"]
      handleSplit_checks_playhead [OF sel [of 7000] ne f, of "''s1''"]
      handleSplit_checks_playhead [OF sel [of 7500] ne f, of "''s1''"]
    by (simp add: f)
qed

subsection \<open>Tracks and drop position\<close>

lemma is_integer_iff: "is_integer x \<longleftrightarrow> x \<in> \<int>"
proof
  assume "is_integer x"
  then have "x = of_int \<lfloor>x\<rfloor>" by (simp add: is_integer_def)
  then show "x \<in> \<int>" by (metis Ints_of_int)
next
  assume "x \<in> \<int>"
  then show "is_integer x" by (simp add: is_integer_def)
qed

lemma set_tracks_of: "set (tracks_of items) = set DEFAULT_TRACKS \<union> track ` set items"
  by (simp add: tracks_of_def)

lemma tracks_of_nonempty: "tracks_of items \<noteq> []"
proof -
  have "1 \<in> set (tracks_of items)"
    by (simp add: set_tracks_of DEFAULT_TRACKS_def)
  then show ?thesis by auto
qed

lemma find_item_in_set: "find P xs = Some x \<Longrightarrow> x \<in> set xs \<and> P x"
  by (induction xs) (auto split: if_splits)

lemma indexOf_position:
  "v \<in> set xs \<Longrightarrow> \<exists>n < length xs. indexOf xs v = real n \<and> xs ! n = v"
proof (induction xs)
  case Nil
  then show ?case by simp
next
  case (Cons a as)
  show ?case
  proof (cases "a = v")
    case True
    then show ?thesis by auto
  next
    case False
    with Cons.prems have "v \<in> set as" by simp
    from Cons.IH [OF this] obtain n where n: "n < length as" "indexOf as v = real n" "as ! n = v"
      by blast
    with False have "indexOf (a # as) v = real (Suc n) \<and> (a # as) ! Suc n = v"
      by simp
    with n(1) show ?thesis by (metis Suc_less_eq length_Cons)
  qed
qed

lemma clamped_index_in_range:
  assumes "xs \<noteq> []"
  shows "\<exists>n < length xs. Math_max 0 (Math_min (Math_floor y) (real (length xs) - 1)) = real n"
proof -
  let ?len = "length xs"
  from assms have pos: "0 < ?len" by simp
  from assms have one: "1 \<le> real ?len" by (cases xs) simp_all
  show ?thesis
  proof (cases "\<lfloor>y\<rfloor> < 0")
    case True
    then have neg: "Math_floor y < 0" by (simp add: Math_floor_def)
    moreover have "0 \<le> real ?len - 1" using one by linarith
    ultimately have "Math_min (Math_floor y) (real ?len - 1) = Math_floor y"
      by (simp add: Math_min_def)
    with neg have "Math_max 0 (Math_min (Math_floor y) (real ?len - 1)) = real 0"
      by (simp add: Math_max_def)
    with pos show ?thesis by blast
  next
    case False
    then have nn: "0 \<le> \<lfloor>y\<rfloor>" by simp
    have fl: "Math_floor y = real (nat \<lfloor>y\<rfloor>)"
      using nn by (simp add: Math_floor_def)
    show ?thesis
    proof (cases "nat \<lfloor>y\<rfloor> < ?len")
      case True
      then have "real (Suc (nat \<lfloor>y\<rfloor>)) \<le> real ?len"
        by (simp only: of_nat_le_iff Suc_le_eq)
      then have "real (nat \<lfloor>y\<rfloor>) \<le> real ?len - 1"
        by simp
      then have "Math_max 0 (Math_min (Math_floor y) (real ?len - 1)) = real (nat \<lfloor>y\<rfloor>)"
        unfolding fl by (simp add: Math_max_def Math_min_def)
      with True show ?thesis by blast
    next
      case False
      then have "real ?len \<le> real (nat \<lfloor>y\<rfloor>)"
        by (simp only: of_nat_le_iff not_less)
      then have lt: "\<not> real (nat \<lfloor>y\<rfloor>) \<le> real ?len - 1"
        by simp
      obtain m where m: "?len = Suc m"
        using assms by (cases xs) simp_all
      have "Math_max 0 (Math_min (Math_floor y) (real ?len - 1)) = real m"
        unfolding fl using lt by (simp add: Math_max_def Math_min_def m)
      moreover have "m < ?len" using m by simp
      ultimately show ?thesis by blast
    qed
  qed
qed

lemma index_or_nat: "n < length xs \<Longrightarrow> index_or xs (real n) d = xs ! n"
  by (simp add: index_or_def is_integer_def)

lemma dropTrack_in_tracks:
  assumes "tracks \<noteq> []"
  shows "dropTrack s tracks \<in> set tracks"
proof -
  from clamped_index_in_range [OF assms, of "pt_y (dragPosition s) / TRACK_HEIGHT"]
  obtain n where n: "n < length tracks"
    "Math_max 0 (Math_min (Math_floor (pt_y (dragPosition s) / TRACK_HEIGHT))
       (real (length tracks) - 1)) = real n"
    by blast
  then have "dropTrack s tracks = tracks ! n"
    by (simp add: dropTrack_def Let_def index_or_nat)
  with n(1) show ?thesis by simp
qed

lemma dropTimeMs_integer: "is_integer (dropTimeMs s) \<and> 0 \<le> dropTimeMs s"
  by (simp add: dropTimeMs_def Math_max_def is_integer_def Math_round_def)

lemma dropTimeMs_at_origin:
  assumes "0 < pixelsPerSecond s" and "is_integer t" and "0 \<le> t"
    and "pt_x (dragPosition s) = msToPixels (pixelsPerSecond s) t"
  shows "dropTimeMs s = t"
proof -
  have "pixelsToMs (pixelsPerSecond s) (pt_x (dragPosition s)) = t"
    using assms(1,4) by (simp add: pixelsToMs_def msToPixels_def)
  moreover have "Math_round t = t"
    using assms(2) by (rule Math_round_fixes_integer)
  ultimately show ?thesis
    using assms(3) by (simp add: dropTimeMs_def Math_max_def)
qed

lemma dropTrack_at_origin:
  assumes "tr \<in> set tracks"
    and "pt_y (dragPosition s) = getTrackIndex tracks tr * TRACK_HEIGHT"
  shows "dropTrack s tracks = tr"
proof -
  from indexOf_position [OF assms(1)] obtain n
    where n: "n < length tracks" "indexOf tracks tr = real n" "tracks ! n = tr"
    by blast
  have fl: "Math_floor (pt_y (dragPosition s) / TRACK_HEIGHT) = real n"
    using assms(2) n(2) by (simp add: getTrackIndex_def TRACK_HEIGHT_def Math_floor_def)
  have "real n \<le> real (length tracks) - 1"
    using n(1) by simp
  then have "Math_max 0 (Math_min (real n) (real (length tracks) - 1)) = real n"
    by (simp add: Math_max_def Math_min_def)
  then show ?thesis
    using n by (simp add: dropTrack_def Let_def fl index_or_nat)
qed

lemma handleDragEnd_found:
  assumes "draggingItem s = Some did" and "did \<noteq> []" and "tracksRef s \<noteq> None"
    and "find (\<lambda>i. item_id i = did) items = Some item"
  shows "handleDragEnd storyId items s =
     (s\<lparr>draggingItem := None\<rparr>,
      if dropTimeMs s \<noteq> start_time_ms item \<or> dropTrack s (tracks_of items) \<noteq> track item
      then [Mutate \<lparr>payload = MoveItem storyId (item_id item) (dropTimeMs s)
                                 (dropTrack s (tracks_of items)),
                    onSuccess = NoAction, onErrorTitle = ''Failed to move item''\<rparr>]
      else [])"
  using assms by (simp add: handleDragEnd_def Let_def)

text \<open>
  C3. Releasing a drag of a clip that is in the clip list: the handler computes the new start
  time and the new track from the drag position, sends exactly one move request carrying that
  pair when the pair differs from the clip's start time and track, and sends nothing when it
  is the same; it shows no toast and ends the drag. A release at the position where the clip
  is rendered (the pixel position of its integral start time, the row of its track) sends
  nothing.
\<close>

theorem drag_release_moves_iff_changed:
  assumes "draggingItem s = Some did" and "did \<noteq> []" and "tracksRef s \<noteq> None"
    and "find (\<lambda>i. item_id i = did) items = Some item"
  shows "map payload (requests (snd (handleDragEnd storyId items s))) =
           (if (dropTimeMs s, dropTrack s (tracks_of items)) = (start_time_ms item, track item)
            then []
            else [MoveItem storyId did (dropTimeMs s) (dropTrack s (tracks_of items))])
         \<and> toasts (snd (handleDragEnd storyId items s)) = []
         \<and> \<not> dragging (fst (handleDragEnd storyId items s))
         \<and> (0 < pixelsPerSecond s \<and> is_integer (start_time_ms item) \<and> 0 \<le> start_time_ms item
              \<and> pt_x (dragPosition s) = msToPixels (pixelsPerSecond s) (start_time_ms item)
              \<and> pt_y (dragPosition s)
                  = getTrackIndex (tracks_of items) (track item) * TRACK_HEIGHT
             \<longrightarrow> requests (snd (handleDragEnd storyId items s)) = [])"
proof -
  from find_item_in_set [OF assms(4)] have mem: "item \<in> set items" and id: "item_id item = did"
    by simp_all
  note eq = handleDragEnd_found [OF assms, of storyId]
  have first: "map payload (requests (snd (handleDragEnd storyId items s))) =
           (if (dropTimeMs s, dropTrack s (tracks_of items)) = (start_time_ms item, track item)
            then []
            else [MoveItem storyId did (dropTimeMs s) (dropTrack s (tracks_of items))])"
    unfolding eq by (simp add: id)
  have second: "toasts (snd (handleDragEnd storyId items s)) = []"
    unfolding eq by simp
  have third: "\<not> dragging (fst (handleDragEnd storyId items s))"
    unfolding eq by (simp add: dragging_def truthy_def)
  have fourth: "requests (snd (handleDragEnd storyId items s)) = []"
    if "0 < pixelsPerSecond s" "is_integer (start_time_ms item)" "0 \<le> start_time_ms item"
      "pt_x (dragPosition s) = msToPixels (pixelsPerSecond s) (start_time_ms item)"
      "pt_y (dragPosition s) = getTrackIndex (tracks_of items) (track item) * TRACK_HEIGHT"
  proof -
    have "track item \<in> set (tracks_of items)"
      using mem by (simp add: set_tracks_of)
    then have "dropTrack s (tracks_of items) = track item"
      using that(5) by (rule dropTrack_at_origin)
    moreover have "dropTimeMs s = start_time_ms item"
      using that(1-4) by (rule dropTimeMs_at_origin)
    ultimately show ?thesis
      unfolding eq by simp
  qed
  from first second third fourth show ?thesis by blast
qed

lemma tracks_of_example: "tracks_of [clip ''a'' 0 1200 2] = [1, 0, - 1]"
  by (simp add: tracks_of_def DEFAULT_TRACKS_def)

lemma drag_example_pressed:
  "fst (run ''s1'' [clip ''a'' 0 1200 2] (initial 300 element0)
          [ClipMouseDown (clip ''a'' 0 1200 2) 130 680 124 672])
   = (initial 300 element0)
       \<lparr>draggingItem := Some ''a'', dragOffset := \<lparr>pt_x = 6, pt_y = 8\<rparr>,
        dragPosition := \<lparr>pt_x = 60, pt_y = 48\<rparr>\<rparr>"
  by (simp add: step_def handleDragStart_def initial_def TIME_RULER_HEIGHT_def)

lemma drag_example_moved:
  "fst (run ''s1'' [clip ''a'' 0 1200 2] (initial 300 element0)
          [ClipMouseDown (clip ''a'' 0 1200 2) 130 680 124 672, MouseMove True 320 732])
   = (initial 300 element0)
       \<lparr>draggingItem := Some ''a'', dragOffset := \<lparr>pt_x = 6, pt_y = 8\<rparr>,
        dragPosition := \<lparr>pt_x = 250, pt_y = 100\<rparr>\<rparr>"
  by (simp add: step_def handleDragStart_def handleDragMove_def initial_def
      TIME_RULER_HEIGHT_def truthy_def Math_max_def)

theorem drag_release_moves_iff_changed_witness:
  "find (\<lambda>i. item_id i = ''a'') [clip ''a'' 0 1200 2] = Some (clip ''a'' 0 1200 2)
   \<and> map payload (requests (snd (handleDragEnd ''s1'' [clip ''a'' 0 1200 2]
        (fst (run ''s1'' [clip ''a'' 0 1200 2] (initial 300 element0)
          [ClipMouseDown (clip ''a'' 0 1200 2) 130 680 124 672, MouseMove True 320 732])))))
      = [MoveItem ''s1'' ''a'' 5000 (- 1)]
   \<and> requests (snd (handleDragEnd ''s1'' [clip ''a'' 0 1200 2]
        (fst (run ''s1'' [clip ''a'' 0 1200 2] (initial 300 element0)
          [ClipMouseDown (clip ''a'' 0 1200 2) 130 680 124 672]))))
      = []
   \<and> is_integer (start_time_ms (clip ''a'' 0 1200 2))
   \<and> dragPosition (fst (run ''s1'' [clip ''a'' 0 1200 2] (initial 300 element0)
          [ClipMouseDown (clip ''a'' 0 1200 2) 130 680 124 672]))
      = \<lparr>pt_x = msToPixels DEFAULT_PIXELS_PER_SECOND (start_time_ms (clip ''a'' 0 1200 2)),
         pt_y = getTrackIndex (tracks_of [clip ''a'' 0 1200 2]) (track (clip ''a'' 0 1200 2))
                  * TRACK_HEIGHT\<rparr>"
proof -
  let ?a = "clip ''a'' 0 1200 2"
  let ?moved = "(initial 300 element0)
       \<lparr>draggingItem := Some ''a'', dragOffset := \<lparr>pt_x = 6, pt_y = 8\<rparr>,
        dragPosition := \<lparr>pt_x = 250, pt_y = 100\<rparr>\<rparr>"
  let ?pressed = "(initial 300 element0)
       \<lparr>draggingItem := Some ''a'', dragOffset := \<lparr>pt_x = 6, pt_y = 8\<rparr>,
        dragPosition := \<lparr>pt_x = 60, pt_y = 48\<rparr>\<rparr>"
  have f: "find (\<lambda>i. item_id i = ''a'') [?a] = Some ?a"
    by simp
  have ne: "''a'' \<noteq> []"
    by simp
  have time: "dropTimeMs ?moved = 5000"
    by (simp add: dropTimeMs_def initial_def pixelsToMs_def DEFAULT_PIXELS_PER_SECOND_def
        Math_round_def Math_max_def)
  have lane: "dropTrack ?moved [1, 0, - 1] = - 1"
    by (simp add: dropTrack_def TRACK_HEIGHT_def Math_floor_def Math_max_def Math_min_def
        index_or_def is_integer_def Let_def)
  have time0: "dropTimeMs ?pressed = 1200"
    by (simp add: dropTimeMs_def initial_def pixelsToMs_def DEFAULT_PIXELS_PER_SECOND_def
        Math_round_def Math_max_def)
  have lane0: "dropTrack ?pressed [1, 0, - 1] = 0"
    by (simp add: dropTrack_def TRACK_HEIGHT_def Math_floor_def Math_max_def Math_min_def
        index_or_def is_integer_def Let_def)
  have m: "draggingItem ?moved = Some ''a''" "tracksRef ?moved \<noteq> None"
    by (simp_all add: initial_def)
  have p: "draggingItem ?pressed = Some ''a''" "tracksRef ?pressed \<noteq> None"
    by (simp_all add: initial_def)
  have origin: "dragPosition ?pressed
      = \<lparr>pt_x = msToPixels DEFAULT_PIXELS_PER_SECOND (start_time_ms ?a),
         pt_y = getTrackIndex [1, 0, - 1] (track ?a) * TRACK_HEIGHT\<rparr>"
    by (simp add: msToPixels_def DEFAULT_PIXELS_PER_SECOND_def getTrackIndex_def
        TRACK_HEIGHT_def)
  have int: "is_integer (start_time_ms ?a)"
    by (simp add: is_integer_def)
  show ?thesis
    unfolding drag_example_pressed drag_example_moved
    using drag_release_moves_iff_changed [OF m(1) ne m(2) f, of "''s1''"]
      drag_release_moves_iff_changed [OF p(1) ne p(2) f, of "''s1''"]
      origin int
    by (simp add: tracks_of_example time lane time0 lane0)
qed

subsection \<open>Trim\<close>

lemma trimMoveValues_nonneg:
  assumes "0 \<le> initialTrimStart r" and "0 \<le> initialTrimEnd r"
  shows "0 \<le> tv_trim_start_ms (trimMoveValues d side r D)
       \<and> 0 \<le> tv_trim_end_ms (trimMoveValues d side r D)"
  using assms
  by (cases side) (simp_all add: trimMoveValues_def Math_round_nonneg Math_max_def)

lemma trimMoveValues_integer:
  assumes "is_integer (initialTrimStart r)" and "is_integer (initialTrimEnd r)"
  shows "is_integer (tv_trim_start_ms (trimMoveValues d side r D))
       \<and> is_integer (tv_trim_end_ms (trimMoveValues d side r D))"
  using assms
  by (cases side) (simp_all add: trimMoveValues_def Math_round_integer)

lemma handleTrimMove_result:
  "handleTrimMove s x = s
   \<or> (\<exists>side r. trimSide s = Some side \<and> trimStartItemRef s = Some r
        \<and> truthy (trimmingItem s)
        \<and> tv_trim_start_ms
             (trimMoveValues (pixelsToMs (pixelsPerSecond s) (x - trimStartX s)) side r
                (duration (ref_item r) * 1000))
           + tv_trim_end_ms
             (trimMoveValues (pixelsToMs (pixelsPerSecond s) (x - trimStartX s)) side r
                (duration (ref_item r) * 1000))
           < duration (ref_item r) * 1000 - 100
        \<and> handleTrimMove s x =
            s\<lparr>tempTrimValues :=
                Some (trimMoveValues (pixelsToMs (pixelsPerSecond s) (x - trimStartX s)) side r
                        (duration (ref_item r) * 1000))\<rparr>)"
  by (auto simp add: handleTrimMove_def Let_def split: option.splits)

lemma handleTrimMove_trim_state_ok:
  assumes "trim_state_ok s"
  shows "trim_state_ok (handleTrimMove s x)"
  using handleTrimMove_result [of s x] assms
  by (auto simp add: trim_state_ok_def trimMoveValues_nonneg)

lemma handleTrimMove_gesture_inv:
  assumes "gesture_inv item s"
    and "is_integer (or_zero (trim_start_ms item))" and "0 \<le> or_zero (trim_start_ms item)"
    and "is_integer (or_zero (trim_end_ms item))" and "0 \<le> or_zero (trim_end_ms item)"
  shows "gesture_inv item (handleTrimMove s x)"
proof -
  from handleTrimMove_result [of s x] show ?thesis
  proof
    assume "handleTrimMove s x = s"
    with assms(1) show ?thesis by simp
  next
    assume "\<exists>side r. trimSide s = Some side \<and> trimStartItemRef s = Some r
        \<and> truthy (trimmingItem s)
        \<and> tv_trim_start_ms
             (trimMoveValues (pixelsToMs (pixelsPerSecond s) (x - trimStartX s)) side r
                (duration (ref_item r) * 1000))
           + tv_trim_end_ms
             (trimMoveValues (pixelsToMs (pixelsPerSecond s) (x - trimStartX s)) side r
                (duration (ref_item r) * 1000))
           < duration (ref_item r) * 1000 - 100
        \<and> handleTrimMove s x =
            s\<lparr>tempTrimValues :=
                Some (trimMoveValues (pixelsToMs (pixelsPerSecond s) (x - trimStartX s)) side r
                        (duration (ref_item r) * 1000))\<rparr>"
    then obtain side r where
      r: "trimStartItemRef s = Some r" and t: "truthy (trimmingItem s)"
      and lt: "tv_trim_start_ms
             (trimMoveValues (pixelsToMs (pixelsPerSecond s) (x - trimStartX s)) side r
                (duration (ref_item r) * 1000))
           + tv_trim_end_ms
             (trimMoveValues (pixelsToMs (pixelsPerSecond s) (x - trimStartX s)) side r
                (duration (ref_item r) * 1000))
           < duration (ref_item r) * 1000 - 100"
      and eq: "handleTrimMove s x =
            s\<lparr>tempTrimValues :=
                Some (trimMoveValues (pixelsToMs (pixelsPerSecond s) (x - trimStartX s)) side r
                        (duration (ref_item r) * 1000))\<rparr>"
      by blast
    from assms(1) t r have rdef: "r = \<lparr>ref_item = item,
                       initialTrimStart = or_zero (trim_start_ms item),
                       initialTrimEnd = or_zero (trim_end_ms item)\<rparr>"
      and tid: "trimmingItem s = Some (item_id item)"
      by (simp_all add: gesture_inv_def)
    have ri: "ref_item r = item" "initialTrimStart r = or_zero (trim_start_ms item)"
      "initialTrimEnd r = or_zero (trim_end_ms item)"
      by (simp_all add: rdef)
    have nn: "0 \<le> initialTrimStart r" "0 \<le> initialTrimEnd r"
      using assms(3,5) by (simp_all add: ri)
    have ii: "is_integer (initialTrimStart r)" "is_integer (initialTrimEnd r)"
      using assms(2,4) by (simp_all add: ri)
    show ?thesis
      unfolding eq
      using t tid r rdef lt trimMoveValues_nonneg [OF nn] trimMoveValues_integer [OF ii]
      by (simp add: gesture_inv_def ri)
  qed
qed

lemma handleTrimStart_gesture_inv:
  assumes "\<not> trimming s0" and "tempTrimValues s0 = None"
  shows "gesture_inv item (handleTrimStart s0 item side x0)"
  using assms
  by (simp add: gesture_inv_def handleTrimStart_def trimming_def split: option.splits)

lemma trimGesture_gesture_inv:
  assumes "\<not> trimming s0" and "tempTrimValues s0 = None"
    and "is_integer (or_zero (trim_start_ms item))" and "0 \<le> or_zero (trim_start_ms item)"
    and "is_integer (or_zero (trim_end_ms item))" and "0 \<le> or_zero (trim_end_ms item)"
  shows "gesture_inv item (trimGesture s0 item side x0 xs)"
proof (induction xs rule: rev_induct)
  case Nil
  show ?case
    using assms(1,2) by (simp add: trimGesture_def handleTrimStart_gesture_inv)
next
  case (snoc x xs)
  have "trimGesture s0 item side x0 (xs @ [x]) = handleTrimMove (trimGesture s0 item side x0 xs) x"
    by (simp add: trimGesture_def)
  with snoc assms(3-6) show ?case
    by (simp add: handleTrimMove_gesture_inv)
qed

lemma handleTrimEnd_commits:
  assumes "gesture_inv item g"
    and "is_integer (or_zero (trim_start_ms item))" and "is_integer (or_zero (trim_end_ms item))"
  shows "list_all (commits_trim_ok item) (map payload (requests (snd (handleTrimEnd storyId g))))"
proof (cases "truthy (trimmingItem g)")
  case False
  then show ?thesis
    by (auto simp add: handleTrimEnd_def truthy_def split: option.splits)
next
  case True
  with assms(1) have tid: "trimmingItem g = Some (item_id item)"
    and r: "trimStartItemRef g = Some \<lparr>ref_item = item,
                       initialTrimStart = or_zero (trim_start_ms item),
                       initialTrimEnd = or_zero (trim_end_ms item)\<rparr>"
    by (simp_all add: gesture_inv_def)
  from True tid have ne: "item_id item \<noteq> []"
    by (simp add: truthy_def)
  show ?thesis
  proof (cases "tempTrimValues g")
    case None
    then show ?thesis
      using tid r ne assms(2,3)
      by (simp add: handleTrimEnd_def Let_def Math_round_fixes_integer split: option.splits)
  next
    case (Some v)
    with assms(1) have v: "is_integer (tv_trim_start_ms v)" "is_integer (tv_trim_end_ms v)"
      "0 \<le> tv_trim_start_ms v" "0 \<le> tv_trim_end_ms v"
      "tv_trim_start_ms v + tv_trim_end_ms v < duration item * 1000 - 100"
      by (simp_all add: gesture_inv_def)
    show ?thesis
      using tid r ne Some v
      by (simp add: handleTrimEnd_def Let_def Math_round_fixes_integer commits_trim_ok_def
          trim_ok_def split: option.splits)
  qed
qed

text \<open>
  C1. A trim gesture on a clip whose stored trim values are non-negative integers, started
  while no trim is in progress: a press on either handle at any position, then pointer moves
  to any positions. After every such sequence the provisional trim values, when the gesture has
  set any, are not negative and their sum is at most the clip's duration in ms minus 100; a
  release at that moment sends nothing or one trim of this clip whose values satisfy the same
  bound; and the values the clip is displayed with satisfy it whenever the stored ones do.
\<close>

theorem trim_gesture_keeps_100ms:
  assumes "is_integer (or_zero (trim_start_ms item))" and "0 \<le> or_zero (trim_start_ms item)"
    and "is_integer (or_zero (trim_end_ms item))" and "0 \<le> or_zero (trim_end_ms item)"
    and "\<not> trimming s0" and "tempTrimValues s0 = None"
  shows "(case tempTrimValues (trimGesture s0 item side x0 xs) of
            None \<Rightarrow> True
          | Some v \<Rightarrow> trim_ok (duration item * 1000) v)
         \<and> list_all (commits_trim_ok item)
             (map payload (requests (snd (handleTrimEnd storyId (trimGesture s0 item side x0 xs)))))
         \<and> length (requests (snd (handleTrimEnd storyId (trimGesture s0 item side x0 xs)))) \<le> 1
         \<and> (trim_ok (duration item * 1000) (stored_trims item) \<longrightarrow>
              trim_ok (duration item * 1000) (displayTrim (trimGesture s0 item side x0 xs) item))"
proof -
  let ?g = "trimGesture s0 item side x0 xs"
  have inv: "gesture_inv item ?g"
    using assms(5,6,1,2,3,4) by (rule trimGesture_gesture_inv)
  have temp: "case tempTrimValues ?g of None \<Rightarrow> True
              | Some v \<Rightarrow> trim_ok (duration item * 1000) v"
    using inv by (simp add: gesture_inv_def trim_ok_def split: option.splits)
  have commit: "list_all (commits_trim_ok item)
                  (map payload (requests (snd (handleTrimEnd storyId ?g))))"
    using inv assms(1,3) by (rule handleTrimEnd_commits)
  have one: "length (requests (snd (handleTrimEnd storyId ?g))) \<le> 1"
    by (simp add: handleTrimEnd_def Let_def split: option.splits)
  have shown: "trim_ok (duration item * 1000) (displayTrim ?g item)"
    if "trim_ok (duration item * 1000) (stored_trims item)"
    using that temp by (simp add: displayTrim_def stored_trims_def split: option.splits)
  from temp commit one shown show ?thesis by blast
qed

lemma trim_example_state:
  "trimGesture ((initial 300 element0)\<lparr>selectedClipId := Some ''a''\<rparr>)
     (clip ''a'' 0 1200 2) SideStart 124 [164, 624]
   = (initial 300 element0)
       \<lparr>selectedClipId := Some ''a'', trimmingItem := Some ''a'', trimSide := Some SideStart,
        trimStartX := 124,
        tempTrimValues := Some \<lparr>tv_trim_start_ms = 800, tv_trim_end_ms = 0\<rparr>,
        trimStartItemRef :=
          Some \<lparr>ref_item = clip ''a'' 0 1200 2, initialTrimStart = 0, initialTrimEnd = 0\<rparr>\<rparr>"
  by (simp add: trimGesture_def handleTrimStart_def handleTrimMove_def trimMoveValues_def
      initial_def truthy_def or_zero_def pixelsToMs_def DEFAULT_PIXELS_PER_SECOND_def
      Math_round_def Math_max_def Math_min_def Let_def)

lemma trim_example_far_state:
  "trimGesture ((initial 300 element0)\<lparr>selectedClipId := Some ''a''\<rparr>)
     (clip ''a'' 0 1200 2) SideStart 124 [624]
   = (initial 300 element0)
       \<lparr>selectedClipId := Some ''a'', trimmingItem := Some ''a'', trimSide := Some SideStart,
        trimStartX := 124,
        trimStartItemRef :=
          Some \<lparr>ref_item = clip ''a'' 0 1200 2, initialTrimStart = 0, initialTrimEnd = 0\<rparr>\<rparr>"
  by (simp add: trimGesture_def handleTrimStart_def handleTrimMove_def trimMoveValues_def
      initial_def truthy_def or_zero_def pixelsToMs_def DEFAULT_PIXELS_PER_SECOND_def
      Math_round_def Math_max_def Math_min_def Let_def)

theorem trim_gesture_keeps_100ms_witness:
  "is_integer (or_zero (trim_start_ms (clip ''a'' 0 1200 2)))
   \<and> 0 \<le> or_zero (trim_start_ms (clip ''a'' 0 1200 2))
   \<and> is_integer (or_zero (trim_end_ms (clip ''a'' 0 1200 2)))
   \<and> 0 \<le> or_zero (trim_end_ms (clip ''a'' 0 1200 2))
   \<and> \<not> trimming ((initial 300 element0)\<lparr>selectedClipId := Some ''a''\<rparr>)
   \<and> tempTrimValues ((initial 300 element0)\<lparr>selectedClipId := Some ''a''\<rparr>) = None
   \<and> trim_ok (duration (clip ''a'' 0 1200 2) * 1000) (stored_trims (clip ''a'' 0 1200 2))
   \<and> tempTrimValues (trimGesture ((initial 300 element0)\<lparr>selectedClipId := Some ''a''\<rparr>)
        (clip ''a'' 0 1200 2) SideStart 124 [164, 624])
      = Some \<lparr>tv_trim_start_ms = 800, tv_trim_end_ms = 0\<rparr>
   \<and> trim_ok 2000 \<lparr>tv_trim_start_ms = 800, tv_trim_end_ms = 0\<rparr>
   \<and> map payload (requests (snd (handleTrimEnd ''s1''
        (trimGesture ((initial 300 element0)\<lparr>selectedClipId := Some ''a''\<rparr>)
           (clip ''a'' 0 1200 2) SideStart 124 [164, 624]))))
      = [TrimItem ''s1'' ''a'' 800 0]
   \<and> commits_trim_ok (clip ''a'' 0 1200 2) (TrimItem ''s1'' ''a'' 800 0)
   \<and> tempTrimValues (trimGesture ((initial 300 element0)\<lparr>selectedClipId := Some ''a''\<rparr>)
        (clip ''a'' 0 1200 2) SideStart 124 [624])
      = None
   \<and> requests (snd (handleTrimEnd ''s1''
        (trimGesture ((initial 300 element0)\<lparr>selectedClipId := Some ''a''\<rparr>)
           (clip ''a'' 0 1200 2) SideStart 124 [624])))
      = []"
proof -
  let ?a = "clip ''a'' 0 1200 2"
  let ?s0 = "(initial 300 element0)\<lparr>selectedClipId := Some ''a''\<rparr>"
  have h1: "is_integer (or_zero (trim_start_ms ?a))" and h2: "0 \<le> or_zero (trim_start_ms ?a)"
    and h3: "is_integer (or_zero (trim_end_ms ?a))" and h4: "0 \<le> or_zero (trim_end_ms ?a)"
    by (simp_all add: or_zero_def is_integer_def)
  have h5: "\<not> trimming ?s0" and h6: "tempTrimValues ?s0 = None"
    by (simp_all add: trimming_def truthy_def initial_def)
  have st: "trim_ok (duration ?a * 1000) (stored_trims ?a)"
    by (simp add: trim_ok_def stored_trims_def or_zero_def)
  have c1: "map payload (requests (snd (handleTrimEnd ''s1''
        (trimGesture ?s0 ?a SideStart 124 [164, 624])))) = [TrimItem ''s1'' ''a'' 800 0]"
    unfolding trim_example_state
    by (simp add: handleTrimEnd_def Let_def Math_round_def)
  have c2: "requests (snd (handleTrimEnd ''s1'' (trimGesture ?s0 ?a SideStart 124 [624]))) = []"
    unfolding trim_example_far_state
    by (simp add: handleTrimEnd_def Let_def Math_round_def initial_def)
  have t1: "tempTrimValues (trimGesture ?s0 ?a SideStart 124 [164, 624])
      = Some \<lparr>tv_trim_start_ms = 800, tv_trim_end_ms = 0\<rparr>"
    unfolding trim_example_state by simp
  have t2: "tempTrimValues (trimGesture ?s0 ?a SideStart 124 [624]) = None"
    unfolding trim_example_far_state by (simp add: initial_def)
  from trim_gesture_keeps_100ms [OF h1 h2 h3 h4 h5 h6, of SideStart 124 "[164, 624]" "''s1''"]
    trim_gesture_keeps_100ms [OF h1 h2 h3 h4 h5 h6, of SideStart 124 "[624]" "''s1''"]
    h1 h2 h3 h4 h5 h6 st c1 c2 t1 t2
  show ?thesis by simp
qed

subsection \<open>Payloads of pointer gestures\<close>

lemma requests_append: "requests (fx @ fx') = requests fx @ requests fx'"
  by (induction fx) (simp_all split: effect.splits)

lemma handleDragEnd_fst: "fst (handleDragEnd storyId items s) = s\<lparr>draggingItem := None\<rparr>"
  by (simp add: handleDragEnd_def Let_def split: option.splits)

lemma handleTrimEnd_fst: "fst (handleTrimEnd storyId s) = trimReset s"
  by (simp add: handleTrimEnd_def Let_def split: option.splits)

lemma handleDragEnd_payload_ok:
  "list_all (move_or_trim_ok (tracks_of items))
     (map payload (requests (snd (handleDragEnd storyId items s))))"
  using dropTimeMs_integer [of s] dropTrack_in_tracks [OF tracks_of_nonempty, of s items]
  by (simp add: handleDragEnd_def Let_def move_or_trim_ok_def split: option.splits)

lemma handleTrimEnd_payload_ok:
  assumes "trim_state_ok s"
  shows "list_all (move_or_trim_ok tracks) (map payload (requests (snd (handleTrimEnd storyId s))))"
  using assms
  by (auto simp add: handleTrimEnd_def Let_def move_or_trim_ok_def trim_state_ok_def
      Math_round_integer Math_round_nonneg split: option.splits)

lemma trim_state_ok_frame:
  assumes "tempTrimValues s' = tempTrimValues s" and "trimStartItemRef s' = trimStartItemRef s"
  shows "trim_state_ok s' = trim_state_ok s"
  using assms by (simp add: trim_state_ok_def)

lemma handleTrimStart_trim_state_ok:
  assumes "trim_state_ok s"
    and "0 \<le> or_zero (trim_start_ms item)" and "0 \<le> or_zero (trim_end_ms item)"
  shows "trim_state_ok (handleTrimStart s item side x)"
  using assms by (simp add: handleTrimStart_def trim_state_ok_def split: option.splits)

lemma trimReset_trim_state_ok: "trim_state_ok (trimReset s)"
  by (simp add: trimReset_def trim_state_ok_def)

lemma handleDragMove_trim_state_ok: "trim_state_ok (handleDragMove s x y) = trim_state_ok s"
  by (rule trim_state_ok_frame) (simp_all add: handleDragMove_def Let_def split: option.splits)

lemma handleDragStart_trim_state_ok:
  "trim_state_ok (handleDragStart s item cx cy bl bt) = trim_state_ok s"
  by (rule trim_state_ok_frame) (simp_all add: handleDragStart_def split: option.splits)

lemma handleResizeMove_trim_state_ok: "trim_state_ok (handleResizeMove s y) = trim_state_ok s"
  by (rule trim_state_ok_frame) (simp_all add: handleResizeMove_def Let_def)

lemma drag_cleared_trim_state_ok: "trim_state_ok (s\<lparr>draggingItem := None\<rparr>) = trim_state_ok s"
  by (simp add: trim_state_ok_def)

lemma step_trim_state_ok:
  assumes "trim_state_ok s" and "trim_press_ok ev"
  shows "trim_state_ok (fst (step storyId items s ev))"
proof (cases ev)
  case (ClipMouseDown item cx cy bl bt)
  with assms(1) show ?thesis
    by (simp add: step_def handleDragStart_trim_state_ok)
next
  case (TrimHandleMouseDown item side cx)
  with assms show ?thesis
    by (simp add: step_def trim_press_ok_def handleTrimStart_trim_state_ok)
next
  case (ResizeHandleMouseDown cy)
  with assms(1) show ?thesis
    by (simp add: step_def handleResizeStart_def trim_state_ok_def)
next
  case (ClipClick item)
  with assms(1) show ?thesis
    by (simp add: step_def handleClipClick_def trim_state_ok_def)
next
  case (MouseMove inside cx cy)
  with assms(1) show ?thesis
    by (simp add: step_def Let_def handleDragMove_trim_state_ok handleTrimMove_trim_state_ok
        handleResizeMove_trim_state_ok)
next
  case (MouseUp inside)
  with assms(1) show ?thesis
    by (simp add: step_def Let_def split_beta handleDragEnd_fst handleTrimEnd_fst
        trimReset_def handleResizeEnd_def trim_state_ok_def)
next
  case MouseLeave
  with assms(1) show ?thesis
    by (simp add: step_def handleDragEnd_fst drag_cleared_trim_state_ok)
next
  case ZoomInClick
  with assms(1) show ?thesis
    by (simp add: step_def trim_state_ok_def)
next
  case ZoomOutClick
  with assms(1) show ?thesis
    by (simp add: step_def trim_state_ok_def)
qed

lemma step_payload_ok:
  assumes "trim_state_ok s"
  shows "list_all (move_or_trim_ok (tracks_of items))
           (map payload (requests (snd (step storyId items s ev))))"
proof (cases ev)
  case (MouseUp inside)
  have a: "list_all (move_or_trim_ok (tracks_of items))
             (map payload (requests (snd (handleTrimEnd storyId s'))))" if "trim_state_ok s'" for s'
    using that by (rule handleTrimEnd_payload_ok)
  show ?thesis
    using assms MouseUp handleDragEnd_payload_ok [of items storyId s]
    by (simp add: step_def Let_def split_beta requests_append handleDragEnd_fst a
        drag_cleared_trim_state_ok)
next
  case MouseLeave
  then show ?thesis
    using handleDragEnd_payload_ok [of items storyId s] by (simp add: step_def)
qed (simp_all add: step_def Let_def)

lemma run_payload_ok:
  assumes "trim_state_ok s" and "list_all trim_press_ok evs"
  shows "list_all (move_or_trim_ok (tracks_of items))
           (map payload (requests (snd (run storyId items s evs))))"
  using assms
proof (induction evs arbitrary: s)
  case Nil
  show ?case by simp
next
  case (Cons ev evs)
  from Cons.prems have ok: "trim_press_ok ev" and rest: "list_all trim_press_ok evs"
    by simp_all
  have next_ok: "trim_state_ok (fst (step storyId items s ev))"
    using Cons.prems(1) ok by (rule step_trim_state_ok)
  from Cons.IH [OF next_ok rest] step_payload_ok [OF Cons.prems(1), of items storyId ev]
  show ?case
    by (simp add: split_beta requests_append)
qed

lemma initial_trim_state_ok: "trim_state_ok (initial h el)"
  by (simp add: initial_def trim_state_ok_def)

text \<open>
  The payloads of the two gestures are rounded. Whatever sequence of pointer events the editor
  receives after its first render, as long as every clip whose trim handle is pressed has
  non-negative stored trim values: each mutation a gesture sends is a move whose start time is
  a non-negative integer and whose track belongs to the current track list, or a trim whose two
  values are non-negative integers.
\<close>

theorem pointer_payloads_well_formed:
  assumes "list_all trim_press_ok evs"
  shows "list_all (move_or_trim_ok (tracks_of items))
           (map payload (requests (snd (run storyId items (initial h el) evs))))"
  using initial_trim_state_ok assms by (rule run_payload_ok)

lemma run_Cons_step:
  assumes "step storyId items s ev = (s1, fx1)"
  shows "snd (run storyId items s (ev # evs)) = fx1 @ snd (run storyId items s1 evs)"
  using assms by (simp add: split_beta)

lemma payload_example_run:
  "map payload (requests (snd (run ''s1'' [clip ''a'' 0 1200 2] (initial 300 element0)
      [ClipMouseDown (clip ''a'' 0 1200 2) 130 680 124 672,
       MouseMove True (961 / 3) 732,
       MouseUp True,
       ClipClick (clip ''a'' 0 1200 2),
       TrimHandleMouseDown (clip ''a'' 0 1200 2) SideStart 124,
       MouseMove True (493 / 3) 700,
       MouseUp True])))
   = [MoveItem ''s1'' ''a'' 5007 (- 1), TrimItem ''s1'' ''a'' 807 0]"
proof -
  let ?a = "clip ''a'' 0 1200 2"
  let ?S0 = "initial 300 element0"
  let ?S1 = "?S0\<lparr>draggingItem := Some ''a'', dragOffset := \<lparr>pt_x = 6, pt_y = 8\<rparr>,
                dragPosition := \<lparr>pt_x = 60, pt_y = 48\<rparr>\<rparr>"
  let ?S2 = "?S0\<lparr>draggingItem := Some ''a'', dragOffset := \<lparr>pt_x = 6, pt_y = 8\<rparr>,
                dragPosition := \<lparr>pt_x = 751 / 3, pt_y = 100\<rparr>\<rparr>"
  let ?S3 = "?S0\<lparr>draggingItem := None, dragOffset := \<lparr>pt_x = 6, pt_y = 8\<rparr>,
                dragPosition := \<lparr>pt_x = 751 / 3, pt_y = 100\<rparr>\<rparr>"
  let ?S4 = "?S3\<lparr>selectedClipId := Some ''a''\<rparr>"
  let ?r = "\<lparr>ref_item = ?a, initialTrimStart = 0, initialTrimEnd = 0\<rparr>"
  let ?S5 = "?S3\<lparr>selectedClipId := Some ''a'', trimmingItem := Some ''a'',
                trimSide := Some SideStart, trimStartX := 124, trimStartItemRef := Some ?r\<rparr>"
  let ?S6 = "?S3\<lparr>selectedClipId := Some ''a'', trimmingItem := Some ''a'',
                trimSide := Some SideStart, trimStartX := 124,
                tempTrimValues := Some \<lparr>tv_trim_start_ms = 807, tv_trim_end_ms = 0\<rparr>,
                trimStartItemRef := Some ?r\<rparr>"
  let ?S7 = "?S3\<lparr>selectedClipId := Some ''a'', trimStartX := 124\<rparr>"
  have e1: "step ''s1'' [?a] ?S0 (ClipMouseDown ?a 130 680 124 672) = (?S1, [])"
    by (simp add: step_def handleDragStart_def initial_def TIME_RULER_HEIGHT_def)
  have e2: "step ''s1'' [?a] ?S1 (MouseMove True (961 / 3) 732) = (?S2, [])"
    by (simp add: step_def handleDragMove_def initial_def TIME_RULER_HEIGHT_def truthy_def
        Math_max_def)
  have time: "dropTimeMs ?S2 = 5007"
    by (simp add: dropTimeMs_def initial_def pixelsToMs_def DEFAULT_PIXELS_PER_SECOND_def
        Math_round_def Math_max_def)
  have lane: "dropTrack ?S2 [1, 0, - 1] = - 1"
    by (simp add: dropTrack_def TRACK_HEIGHT_def Math_floor_def Math_max_def Math_min_def
        index_or_def is_integer_def Let_def)
  have d: "handleDragEnd ''s1'' [?a] ?S2
      = (?S3, [Mutate \<lparr>payload = MoveItem ''s1'' ''a'' 5007 (- 1), onSuccess = NoAction,
                       onErrorTitle = ''Failed to move item''\<rparr>])"
    by (simp add: handleDragEnd_def tracks_of_example time lane Let_def) (simp add: initial_def)
  have e3: "step ''s1'' [?a] ?S2 (MouseUp True)
      = (?S3, [Mutate \<lparr>payload = MoveItem ''s1'' ''a'' 5007 (- 1), onSuccess = NoAction,
                       onErrorTitle = ''Failed to move item''\<rparr>])"
    unfolding step_def event.case d by (simp add: truthy_def initial_def)
  have e4: "step ''s1'' [?a] ?S3 (ClipClick ?a) = (?S4, [])"
    by (simp add: step_def handleClipClick_def truthy_def initial_def)
  have e5: "step ''s1'' [?a] ?S4 (TrimHandleMouseDown ?a SideStart 124) = (?S5, [])"
    by (simp add: step_def handleTrimStart_def initial_def or_zero_def)
  have m: "handleTrimMove ?S5 (493 / 3) = ?S6"
    by (simp add: handleTrimMove_def trimMoveValues_def truthy_def pixelsToMs_def initial_def
        DEFAULT_PIXELS_PER_SECOND_def Math_round_def Math_max_def Math_min_def Let_def)
  have e6: "step ''s1'' [?a] ?S5 (MouseMove True (493 / 3) 700) = (?S6, [])"
    unfolding step_def event.case
    by (simp add: m truthy_def Let_def) (simp add: initial_def)
  have t: "handleTrimEnd ''s1'' ?S6
      = (?S7, [Mutate \<lparr>payload = TrimItem ''s1'' ''a'' 807 0, onSuccess = NoAction,
                       onErrorTitle = ''Failed to trim clip''\<rparr>])"
    by (simp add: handleTrimEnd_def trimReset_def Math_round_def Let_def) (simp add: initial_def)
  have e7: "step ''s1'' [?a] ?S6 (MouseUp True)
      = (?S7, [Mutate \<lparr>payload = TrimItem ''s1'' ''a'' 807 0, onSuccess = NoAction,
                       onErrorTitle = ''Failed to trim clip''\<rparr>])"
    unfolding step_def event.case
    by (simp add: t truthy_def Let_def) (simp add: initial_def)
  show ?thesis
    unfolding run_Cons_step [OF e1] run_Cons_step [OF e2] run_Cons_step [OF e3]
      run_Cons_step [OF e4] run_Cons_step [OF e5] run_Cons_step [OF e6] run_Cons_step [OF e7]
    by simp
qed

theorem pointer_payloads_well_formed_witness:
  "list_all trim_press_ok
      [ClipMouseDown (clip ''a'' 0 1200 2) 130 680 124 672,
       MouseMove True (961 / 3) 732,
       MouseUp True,
       ClipClick (clip ''a'' 0 1200 2),
       TrimHandleMouseDown (clip ''a'' 0 1200 2) SideStart 124,
       MouseMove True (493 / 3) 700,
       MouseUp True]
   \<and> map payload (requests (snd (run ''s1'' [clip ''a'' 0 1200 2] (initial 300 element0)
      [ClipMouseDown (clip ''a'' 0 1200 2) 130 680 124 672,
       MouseMove True (961 / 3) 732,
       MouseUp True,
       ClipClick (clip ''a'' 0 1200 2),
       TrimHandleMouseDown (clip ''a'' 0 1200 2) SideStart 124,
       MouseMove True (493 / 3) 700,
       MouseUp True])))
      = [MoveItem ''s1'' ''a'' 5007 (- 1), TrimItem ''s1'' ''a'' 807 0]
   \<and> list_all (move_or_trim_ok (tracks_of [clip ''a'' 0 1200 2]))
        [MoveItem ''s1'' ''a'' 5007 (- 1), TrimItem ''s1'' ''a'' 807 0]"
proof -
  let ?evs = "[ClipMouseDown (clip ''a'' 0 1200 2) 130 680 124 672,
       MouseMove True (961 / 3) 732,
       MouseUp True,
       ClipClick (clip ''a'' 0 1200 2),
       TrimHandleMouseDown (clip ''a'' 0 1200 2) SideStart 124,
       MouseMove True (493 / 3) 700,
       MouseUp True]"
  have ok: "list_all trim_press_ok ?evs"
    by (simp add: trim_press_ok_def or_zero_def)
  from pointer_payloads_well_formed [OF ok, of "[clip ''a'' 0 1200 2]" "''s1''" 300 element0]
    ok payload_example_run
  show ?thesis by simp
qed

subsection \<open>The payload of a split\<close>

text \<open>
  The playhead time that \<open>handleSplit\<close> reads need not be integral. One zoom-in step from the
  default gives 75 pixels per second; a click on the ruler 100 pixels from the timeline's left
  edge then seeks to \<open>100 / 75 * 1000 = 4000 / 3\<close> ms, which \<open>handleTimelineClick\<close> passes on
  without rounding, and a click on the clip selects it.
\<close>

lemma fractional_playhead_reachable:
  "handleClipClick
     (handleTimelineClick
        ((initial 300 element0)\<lparr>pixelsPerSecond := handleZoomIn DEFAULT_PIXELS_PER_SECOND\<rparr>) 164)
     (clip ''a'' 0 0 2)
   = (initial 300 element0)
       \<lparr>pixelsPerSecond := 75, selectedClipId := Some ''a'', currentTimeMs := 4000 / 3\<rparr>"
  by (simp add: handleClipClick_def handleTimelineClick_def seek_def handleZoomIn_def
      initial_def truthy_def pixelsToMs_def Math_max_def Math_min_def
      DEFAULT_PIXELS_PER_SECOND_def MAX_PIXELS_PER_SECOND_def Let_def)


subsection \<open>Interaction modes\<close>

lemma handleDragStart_modes:
  "trimmingItem (handleDragStart s item cx cy bl bt) = trimmingItem s
   \<and> isResizing (handleDragStart s item cx cy bl bt) = isResizing s"
  by (simp add: handleDragStart_def split: option.splits)

lemma handleTrimStart_modes:
  "draggingItem (handleTrimStart s item side cx) = draggingItem s
   \<and> isResizing (handleTrimStart s item side cx) = isResizing s"
  by (simp add: handleTrimStart_def split: option.splits)

lemma handleResizeStart_modes:
  "draggingItem (handleResizeStart s cy) = draggingItem s
   \<and> trimmingItem (handleResizeStart s cy) = trimmingItem s"
  by (simp add: handleResizeStart_def)

lemma handleDragMove_modes:
  "draggingItem (handleDragMove s cx cy) = draggingItem s
   \<and> trimmingItem (handleDragMove s cx cy) = trimmingItem s
   \<and> isResizing (handleDragMove s cx cy) = isResizing s"
  by (simp add: handleDragMove_def Let_def split: option.splits)

lemma handleTrimMove_modes:
  "draggingItem (handleTrimMove s cx) = draggingItem s
   \<and> trimmingItem (handleTrimMove s cx) = trimmingItem s
   \<and> isResizing (handleTrimMove s cx) = isResizing s"
  using handleTrimMove_result [of s cx] by auto

lemma handleResizeMove_modes:
  "draggingItem (handleResizeMove s cy) = draggingItem s
   \<and> trimmingItem (handleResizeMove s cy) = trimmingItem s
   \<and> isResizing (handleResizeMove s cy) = isResizing s"
  by (simp add: handleResizeMove_def Let_def)

lemma active_modes_le_Suc_0_iff:
  "active_modes s \<le> Suc 0 \<longleftrightarrow>
     \<not> (dragging s \<and> trimming s) \<and> \<not> (dragging s \<and> isResizing s)
     \<and> \<not> (trimming s \<and> isResizing s)"
  by (simp add: active_modes_def)

lemma step_press_from_idle:
  assumes "idle s"
  shows "active_modes (fst (step storyId items s ev)) \<le> 1"
proof (cases ev)
  case (ClipMouseDown item cx cy bl bt)
  with assms show ?thesis
    by (simp add: step_def active_modes_le_Suc_0_iff idle_def dragging_def trimming_def
        handleDragStart_modes)
next
  case (TrimHandleMouseDown item side cx)
  with assms show ?thesis
    by (simp add: step_def active_modes_le_Suc_0_iff idle_def dragging_def trimming_def
        handleTrimStart_modes)
next
  case (ResizeHandleMouseDown cy)
  with assms show ?thesis
    by (simp add: step_def active_modes_le_Suc_0_iff idle_def dragging_def trimming_def
        handleResizeStart_modes)
next
  case (ClipClick item)
  with assms show ?thesis
    by (simp add: step_def active_modes_le_Suc_0_iff idle_def dragging_def trimming_def
        handleClipClick_def)
next
  case (MouseMove inside cx cy)
  with assms show ?thesis
    by (simp add: step_def active_modes_le_Suc_0_iff idle_def dragging_def trimming_def)
next
  case (MouseUp inside)
  with assms show ?thesis
    by (simp add: step_def active_modes_le_Suc_0_iff idle_def dragging_def trimming_def)
next
  case MouseLeave
  with assms show ?thesis
    by (simp add: step_def active_modes_le_Suc_0_iff idle_def dragging_def trimming_def)
next
  case ZoomInClick
  with assms show ?thesis
    by (simp add: step_def active_modes_le_Suc_0_iff idle_def dragging_def trimming_def)
next
  case ZoomOutClick
  with assms show ?thesis
    by (simp add: step_def active_modes_le_Suc_0_iff idle_def dragging_def trimming_def)
qed

lemma step_no_press_keeps_exclusive:
  assumes "active_modes s \<le> 1" and "\<not> is_press ev"
  shows "active_modes (fst (step storyId items s ev)) \<le> 1"
proof (cases ev)
  case (ClipMouseDown item cx cy bl bt)
  with assms(2) show ?thesis by (simp add: is_press_def)
next
  case (TrimHandleMouseDown item side cx)
  with assms(2) show ?thesis by (simp add: is_press_def)
next
  case (ResizeHandleMouseDown cy)
  with assms(2) show ?thesis by (simp add: is_press_def)
next
  case (ClipClick item)
  with assms(1) show ?thesis
    by (auto simp add: step_def active_modes_le_Suc_0_iff dragging_def trimming_def handleClipClick_def)
next
  case (MouseMove inside cx cy)
  with assms(1) show ?thesis
    by (auto simp add: step_def Let_def active_modes_le_Suc_0_iff dragging_def trimming_def
        handleDragMove_modes handleTrimMove_modes handleResizeMove_modes)
next
  case (MouseUp inside)
  with assms(1) show ?thesis
    by (auto simp add: step_def Let_def split_beta active_modes_le_Suc_0_iff dragging_def trimming_def
        handleDragEnd_fst handleTrimEnd_fst trimReset_def handleResizeEnd_def truthy_def)
next
  case MouseLeave
  with assms(1) show ?thesis
    by (auto simp add: step_def active_modes_le_Suc_0_iff dragging_def trimming_def handleDragEnd_fst
        truthy_def)
next
  case ZoomInClick
  with assms(1) show ?thesis
    by (simp add: step_def active_modes_le_Suc_0_iff dragging_def trimming_def)
next
  case ZoomOutClick
  with assms(1) show ?thesis
    by (simp add: step_def active_modes_le_Suc_0_iff dragging_def trimming_def)
qed

lemma step_release_idle: "idle (fst (step storyId items s (MouseUp True)))"
  by (simp add: step_def Let_def split_beta idle_def dragging_def trimming_def
      handleDragEnd_fst handleTrimEnd_fst trimReset_def handleResizeEnd_def truthy_def
      split: option.splits)

lemma run_exclusive:
  assumes "active_modes s \<le> 1" and "presses_at_idle storyId items s evs"
  shows "active_modes (fst (run storyId items s evs)) \<le> 1"
  using assms
proof (induction evs arbitrary: s)
  case Nil
  then show ?case by simp
next
  case (Cons ev evs)
  from Cons.prems(2) have here: "if is_press ev then idle s else True"
    and rest: "presses_at_idle storyId items (fst (step storyId items s ev)) evs"
    by simp_all
  have "active_modes (fst (step storyId items s ev)) \<le> 1"
  proof (cases "is_press ev")
    case True
    with here have "idle s" by simp
    then show ?thesis by (rule step_press_from_idle)
  next
    case False
    with Cons.prems(1) show ?thesis by (rule step_no_press_keeps_exclusive)
  qed
  from Cons.IH [OF this rest] show ?case
    by (simp add: split_beta)
qed

lemma step_release_ends_trim_and_resize:
  "\<not> trimming (fst (step storyId items s (MouseUp inside)))
   \<and> \<not> isResizing (fst (step storyId items s (MouseUp inside)))"
  by (simp add: step_def Let_def split_beta trimming_def handleDragEnd_fst handleTrimEnd_fst
      trimReset_def handleResizeEnd_def truthy_def split: option.splits)

lemma step_release_keeps_no_drag:
  assumes "\<not> dragging s"
  shows "\<not> dragging (fst (step storyId items s (MouseUp inside)))"
  using assms
  by (simp add: step_def Let_def split_beta dragging_def handleDragEnd_fst handleTrimEnd_fst
      trimReset_def handleResizeEnd_def truthy_def split: option.splits)

lemma step_leave_ends_drag: "\<not> dragging (fst (step storyId items s MouseLeave))"
  by (simp add: step_def dragging_def handleDragEnd_fst truthy_def split: option.splits)

lemma release_without_drag_idle:
  assumes "\<not> dragging s"
  shows "idle (fst (step storyId items s (MouseUp inside)))"
  using step_release_keeps_no_drag [OF assms, of storyId items inside]
    step_release_ends_trim_and_resize [of storyId items s inside]
  by (simp add: idle_def)

lemma step_drag_stays_inside:
  assumes "dragging s \<longrightarrow> inside" and "left_before inside ev"
  shows "dragging (fst (step storyId items s ev)) \<longrightarrow> pointer_after inside ev"
proof (cases ev)
  case (ClipMouseDown item cx cy bl bt)
  then show ?thesis by (simp add: pointer_after_def)
next
  case (TrimHandleMouseDown item side cx)
  then show ?thesis by (simp add: pointer_after_def)
next
  case (ResizeHandleMouseDown cy)
  with assms(1) show ?thesis
    by (simp add: pointer_after_def step_def dragging_def handleResizeStart_modes)
next
  case (ClipClick item)
  then show ?thesis by (simp add: pointer_after_def)
next
  case (MouseMove b cx cy)
  with assms show ?thesis
    by (auto simp add: pointer_after_def left_before_def step_def Let_def dragging_def
        handleDragMove_modes handleTrimMove_modes handleResizeMove_modes split: if_splits)
next
  case (MouseUp b)
  show ?thesis
  proof (cases b)
    case True
    with MouseUp show ?thesis by (simp add: pointer_after_def)
  next
    case False
    with MouseUp assms have "\<not> dragging s"
      by (auto simp add: left_before_def)
    then have "\<not> dragging (fst (step storyId items s (MouseUp b)))"
      by (rule step_release_keeps_no_drag)
    with MouseUp show ?thesis by simp
  qed
next
  case MouseLeave
  then show ?thesis
    using step_leave_ends_drag [of storyId items s] by simp
next
  case ZoomInClick
  with assms(1) show ?thesis
    by (simp add: pointer_after_def step_def dragging_def)
next
  case ZoomOutClick
  with assms(1) show ?thesis
    by (simp add: pointer_after_def step_def dragging_def)
qed

lemma run_release_idle:
  assumes "dragging s \<longrightarrow> inside" and "leaves_delivered inside (evs @ [MouseUp b])"
  shows "idle (fst (run storyId items s (evs @ [MouseUp b])))"
  using assms
proof (induction evs arbitrary: s inside)
  case Nil
  show ?case
  proof (cases b)
    case True
    then show ?thesis
      using step_release_idle [of storyId items s] by (simp add: split_beta)
  next
    case False
    with Nil have "\<not> dragging s"
      by (auto simp add: left_before_def)
    then have "idle (fst (step storyId items s (MouseUp b)))"
      by (rule release_without_drag_idle)
    then show ?thesis by (simp add: split_beta)
  qed
next
  case (Cons ev evs)
  from Cons.prems(2) have here: "left_before inside ev"
    and rest: "leaves_delivered (pointer_after inside ev) (evs @ [MouseUp b])"
    by simp_all
  have "dragging (fst (step storyId items s ev)) \<longrightarrow> pointer_after inside ev"
    using Cons.prems(1) here by (rule step_drag_stays_inside)
  from Cons.IH [OF this rest] show ?case
    by (simp add: split_beta)
qed

text \<open>
  C2. The press handlers do not look at the current mode: each sets its own mode and leaves the
  other two as they are. What holds is this. In every state reached from an idle state by a
  sequence of pointer events in which each press arrives while the editor is idle, at most one
  of the three modes is active. Every mode returns to idle on pointer release: after every
  release that ends a sequence of pointer events from an idle state, inside or outside the
  timeline, the editor is idle, provided the events outside the timeline come after the
  pointer has left it. State by state: a release inside the timeline leaves the editor idle;
  any release ends a trim and a resize; the pointer leaving the timeline ends a drag; and any
  release while no drag is on, in particular one after the pointer has left, leaves the editor
  idle.
\<close>

theorem modes_exclusive_when_presses_at_idle:
  assumes "idle s0"
  shows "(presses_at_idle storyId items s0 evs \<longrightarrow>
            active_modes (fst (run storyId items s0 evs)) \<le> 1)
       \<and> (leaves_delivered inside0 (evs' @ [MouseUp b]) \<longrightarrow>
            idle (fst (run storyId items s0 (evs' @ [MouseUp b]))))
       \<and> idle (fst (step storyId items s (MouseUp True)))
       \<and> \<not> trimming (fst (step storyId items s (MouseUp inside)))
       \<and> \<not> isResizing (fst (step storyId items s (MouseUp inside)))
       \<and> \<not> dragging (fst (step storyId items s MouseLeave))
       \<and> (\<not> dragging s \<longrightarrow> idle (fst (step storyId items s (MouseUp inside))))
       \<and> idle (fst (step storyId items (fst (step storyId items s MouseLeave))
                  (MouseUp inside)))"
proof -
  from assms have one: "active_modes s0 \<le> 1" and no_drag: "\<not> dragging s0"
    by (simp_all add: idle_def active_modes_def)
  have excl: "active_modes (fst (run storyId items s0 evs)) \<le> 1"
    if "presses_at_idle storyId items s0 evs"
    using one that by (rule run_exclusive)
  have release: "idle (fst (run storyId items s0 (evs' @ [MouseUp b])))"
    if "leaves_delivered inside0 (evs' @ [MouseUp b])"
  proof -
    from no_drag have "dragging s0 \<longrightarrow> inside0" by simp
    then show ?thesis using that by (rule run_release_idle)
  qed
  have left: "idle (fst (step storyId items (fst (step storyId items s MouseLeave))
                      (MouseUp inside)))"
    using step_leave_ends_drag by (rule release_without_drag_idle)
  from excl release step_release_idle [of storyId items s]
    step_release_ends_trim_and_resize [of storyId items s inside]
    step_leave_ends_drag [of storyId items s]
    release_without_drag_idle [of s storyId items inside] left
  show ?thesis by blast
qed

lemma run_Cons_step_fst:
  assumes "step storyId items s ev = (s1, fx1)"
  shows "fst (run storyId items s (ev # evs)) = fst (run storyId items s1 evs)"
  using assms by (simp add: split_beta)

text \<open>
  In the example a drag is on after a press and a move. A release inside the timeline ends it;
  so does the pointer leaving the timeline, after which a release outside finds the editor
  idle. A resize is on after a press on the resize handle, and a release outside the timeline
  ends it.
\<close>

theorem modes_exclusive_when_presses_at_idle_witness:
  "idle (initial 300 element0)
   \<and> presses_at_idle ''s1'' [clip ''a'' 0 1200 2] (initial 300 element0)
        [ClipMouseDown (clip ''a'' 0 1200 2) 130 680 124 672, MouseMove True 320 732]
   \<and> active_modes (fst (run ''s1'' [clip ''a'' 0 1200 2] (initial 300 element0)
        [ClipMouseDown (clip ''a'' 0 1200 2) 130 680 124 672, MouseMove True 320 732])) = 1
   \<and> idle (fst (step ''s1'' [clip ''a'' 0 1200 2]
        (fst (run ''s1'' [clip ''a'' 0 1200 2] (initial 300 element0)
          [ClipMouseDown (clip ''a'' 0 1200 2) 130 680 124 672, MouseMove True 320 732]))
        (MouseUp True)))
   \<and> leaves_delivered False
        [ClipMouseDown (clip ''a'' 0 1200 2) 130 680 124 672, MouseMove True 320 732,
         MouseLeave, MouseUp False]
   \<and> idle (fst (run ''s1'' [clip ''a'' 0 1200 2] (initial 300 element0)
        [ClipMouseDown (clip ''a'' 0 1200 2) 130 680 124 672, MouseMove True 320 732,
         MouseLeave, MouseUp False]))
   \<and> leaves_delivered False [ResizeHandleMouseDown 590, MouseMove False 300 500, MouseUp False]
   \<and> idle (fst (run ''s1'' [clip ''a'' 0 1200 2] (initial 300 element0)
        [ResizeHandleMouseDown 590, MouseMove False 300 500, MouseUp False]))
   \<and> \<not> dragging (handleResizeStart (initial 300 element0) 590)
   \<and> isResizing (handleResizeStart (initial 300 element0) 590)
   \<and> idle (fst (step ''s1'' [clip ''a'' 0 1200 2]
        (handleResizeStart (initial 300 element0) 590) (MouseUp False)))"
proof -
  let ?press = "ClipMouseDown (clip ''a'' 0 1200 2) 130 680 124 672"
  let ?evs = "[?press, MouseMove True 320 732]"
  let ?d = "fst (run ''s1'' [clip ''a'' 0 1200 2] (initial 300 element0) ?evs)"
  let ?r = "handleResizeStart (initial 300 element0) 590"
  have i: "idle (initial 300 element0)"
    by (simp add: idle_def dragging_def trimming_def truthy_def initial_def)
  have p: "presses_at_idle ''s1'' [clip ''a'' 0 1200 2] (initial 300 element0) ?evs"
    by (simp add: is_press_def i)
  have l1: "leaves_delivered False ([?press, MouseMove True 320 732, MouseLeave] @ [MouseUp False])"
    by (simp add: left_before_def pointer_after_def)
  have l2: "leaves_delivered False
      ([ResizeHandleMouseDown 590, MouseMove False 300 500] @ [MouseUp False])"
    by (simp add: left_before_def pointer_after_def)
  have one: "active_modes ?d = 1"
    unfolding drag_example_moved
    by (simp add: active_modes_def dragging_def trimming_def truthy_def initial_def)
  have r: "\<not> dragging ?r \<and> isResizing ?r"
    by (simp add: handleResizeStart_def dragging_def truthy_def initial_def)
  note t1 = modes_exclusive_when_presses_at_idle
      [OF i, of "''s1''" "[clip ''a'' 0 1200 2]" ?evs False
         "[?press, MouseMove True 320 732, MouseLeave]" False ?d True]
  note t2 = modes_exclusive_when_presses_at_idle
      [OF i, of "''s1''" "[clip ''a'' 0 1200 2]" ?evs False
         "[ResizeHandleMouseDown 590, MouseMove False 300 500]" False ?r False]
  from t1 p l1 have a: "idle (fst (step ''s1'' [clip ''a'' 0 1200 2] ?d (MouseUp True)))"
    and b: "idle (fst (run ''s1'' [clip ''a'' 0 1200 2] (initial 300 element0)
        [?press, MouseMove True 320 732, MouseLeave, MouseUp False]))"
    by simp_all
  from t2 l2 r have c: "idle (fst (run ''s1'' [clip ''a'' 0 1200 2] (initial 300 element0)
        [ResizeHandleMouseDown 590, MouseMove False 300 500, MouseUp False]))"
    and d: "idle (fst (step ''s1'' [clip ''a'' 0 1200 2] ?r (MouseUp False)))"
    by simp_all
  from l1 have l1': "leaves_delivered False [?press, MouseMove True 320 732, MouseLeave, MouseUp False]"
    by simp
  from l2 have l2': "leaves_delivered False
      [ResizeHandleMouseDown 590, MouseMove False 300 500, MouseUp False]"
    by simp
  from i p one a b c d r l1' l2' show ?thesis
    by blast
qed

text \<open>
  Without the restriction on the presses the statement fails: after a click that selects clip \<open>a\<close>, a press on the clip starts a
  drag, and a press on its trim handle before any release starts a trim while the drag is
  still on.
\<close>

theorem modes_overlap_counterexample:
  "idle (initial 300 element0)
   \<and> dragging (fst (run ''s1'' [clip ''a'' 0 1200 2] (initial 300 element0)
        [ClipMouseDown (clip ''a'' 0 1200 2) 130 680 124 672, MouseUp True,
         ClipClick (clip ''a'' 0 1200 2),
         ClipMouseDown (clip ''a'' 0 1200 2) 130 680 124 672]))
   \<and> \<not> trimming (fst (run ''s1'' [clip ''a'' 0 1200 2] (initial 300 element0)
        [ClipMouseDown (clip ''a'' 0 1200 2) 130 680 124 672, MouseUp True,
         ClipClick (clip ''a'' 0 1200 2),
         ClipMouseDown (clip ''a'' 0 1200 2) 130 680 124 672]))
   \<and> dragging (fst (run ''s1'' [clip ''a'' 0 1200 2] (initial 300 element0)
        [ClipMouseDown (clip ''a'' 0 1200 2) 130 680 124 672, MouseUp True,
         ClipClick (clip ''a'' 0 1200 2),
         ClipMouseDown (clip ''a'' 0 1200 2) 130 680 124 672,
         TrimHandleMouseDown (clip ''a'' 0 1200 2) SideStart 124]))
   \<and> trimming (fst (run ''s1'' [clip ''a'' 0 1200 2] (initial 300 element0)
        [ClipMouseDown (clip ''a'' 0 1200 2) 130 680 124 672, MouseUp True,
         ClipClick (clip ''a'' 0 1200 2),
         ClipMouseDown (clip ''a'' 0 1200 2) 130 680 124 672,
         TrimHandleMouseDown (clip ''a'' 0 1200 2) SideStart 124]))
   \<and> active_modes (fst (run ''s1'' [clip ''a'' 0 1200 2] (initial 300 element0)
        [ClipMouseDown (clip ''a'' 0 1200 2) 130 680 124 672, MouseUp True,
         ClipClick (clip ''a'' 0 1200 2),
         ClipMouseDown (clip ''a'' 0 1200 2) 130 680 124 672,
         TrimHandleMouseDown (clip ''a'' 0 1200 2) SideStart 124])) = 2"
proof -
  let ?a = "clip ''a'' 0 1200 2"
  let ?S0 = "initial 300 element0"
  let ?S1 = "?S0\<lparr>draggingItem := Some ''a'', dragOffset := \<lparr>pt_x = 6, pt_y = 8\<rparr>,
                dragPosition := \<lparr>pt_x = 60, pt_y = 48\<rparr>\<rparr>"
  let ?S2 = "?S0\<lparr>draggingItem := None, dragOffset := \<lparr>pt_x = 6, pt_y = 8\<rparr>,
                dragPosition := \<lparr>pt_x = 60, pt_y = 48\<rparr>\<rparr>"
  let ?S3 = "?S2\<lparr>selectedClipId := Some ''a''\<rparr>"
  let ?S4 = "?S0\<lparr>draggingItem := Some ''a'', dragOffset := \<lparr>pt_x = 6, pt_y = 8\<rparr>,
                dragPosition := \<lparr>pt_x = 60, pt_y = 48\<rparr>, selectedClipId := Some ''a''\<rparr>"
  let ?S5 = "?S4\<lparr>trimmingItem := Some ''a'', trimSide := Some SideStart, trimStartX := 124,
                trimStartItemRef :=
                  Some \<lparr>ref_item = ?a, initialTrimStart = 0, initialTrimEnd = 0\<rparr>\<rparr>"
  have e1: "step ''s1'' [?a] ?S0 (ClipMouseDown ?a 130 680 124 672) = (?S1, [])"
    by (simp add: step_def handleDragStart_def initial_def TIME_RULER_HEIGHT_def)
  have time: "dropTimeMs ?S1 = 1200"
    by (simp add: dropTimeMs_def initial_def pixelsToMs_def DEFAULT_PIXELS_PER_SECOND_def
        Math_round_def Math_max_def)
  have lane: "dropTrack ?S1 [1, 0, - 1] = 0"
    by (simp add: dropTrack_def TRACK_HEIGHT_def Math_floor_def Math_max_def Math_min_def
        index_or_def is_integer_def Let_def)
  have d: "handleDragEnd ''s1'' [?a] ?S1 = (?S2, [])"
    by (simp add: handleDragEnd_def tracks_of_example time lane Let_def)
  have e2: "step ''s1'' [?a] ?S1 (MouseUp True) = (?S2, [])"
    unfolding step_def event.case d by (simp add: truthy_def initial_def)
  have e3: "step ''s1'' [?a] ?S2 (ClipClick ?a) = (?S3, [])"
    by (simp add: step_def handleClipClick_def truthy_def initial_def)
  have e4: "step ''s1'' [?a] ?S3 (ClipMouseDown ?a 130 680 124 672) = (?S4, [])"
    by (simp add: step_def handleDragStart_def initial_def TIME_RULER_HEIGHT_def)
  have e5: "step ''s1'' [?a] ?S4 (TrimHandleMouseDown ?a SideStart 124) = (?S5, [])"
    by (simp add: step_def handleTrimStart_def initial_def or_zero_def)
  have i: "idle ?S0"
    by (simp add: idle_def dragging_def trimming_def truthy_def initial_def)
  have four: "dragging ?S4 \<and> \<not> trimming ?S4"
    by (simp add: dragging_def trimming_def truthy_def initial_def)
  have five: "dragging ?S5 \<and> trimming ?S5 \<and> active_modes ?S5 = 2"
    by (simp add: active_modes_def dragging_def trimming_def truthy_def initial_def)
  show ?thesis
    unfolding run_Cons_step_fst [OF e1] run_Cons_step_fst [OF e2] run_Cons_step_fst [OF e3]
      run_Cons_step_fst [OF e4] run_Cons_step_fst [OF e5]
    using i four five by simp
qed

subsection \<open>Provisional trim values between gestures\<close>

text \<open>
  The trim gesture theorem starts from a state with no trim in progress and no provisional
  values. Every state between gestures is such a state: when each press arrives while the
  editor is idle, provisional values exist only while a trim is in progress.
\<close>

lemma step_no_stale_trim:
  assumes "no_stale_trim s" and "if is_press ev then idle s else True"
  shows "no_stale_trim (fst (step storyId items s ev))"
proof (cases ev)
  case (ClipMouseDown item cx cy bl bt)
  with assms(1) show ?thesis
    by (simp add: step_def no_stale_trim_def trimming_def handleDragStart_def
        split: option.splits)
next
  case (TrimHandleMouseDown item side cx)
  with assms show ?thesis
    by (auto simp add: step_def no_stale_trim_def trimming_def idle_def is_press_def
        handleTrimStart_def split: option.splits)
next
  case (ResizeHandleMouseDown cy)
  with assms(1) show ?thesis
    by (simp add: step_def no_stale_trim_def trimming_def handleResizeStart_def)
next
  case (ClipClick item)
  with assms(1) show ?thesis
    by (auto simp add: step_def no_stale_trim_def trimming_def handleClipClick_def)
next
  case (MouseMove inside cx cy)
  have frame: "tempTrimValues (handleDragMove s cx cy) = tempTrimValues s"
    by (simp add: handleDragMove_def Let_def split: option.splits)
  have frame': "tempTrimValues (handleResizeMove s' cy) = tempTrimValues s'" for s'
    by (simp add: handleResizeMove_def Let_def)
  from MouseMove assms(1) show ?thesis
    by (auto simp add: step_def Let_def no_stale_trim_def trimming_def handleDragMove_modes
        handleTrimMove_modes handleResizeMove_modes frame frame')
next
  case (MouseUp inside)
  with assms(1) show ?thesis
    by (auto simp add: step_def Let_def split_beta no_stale_trim_def trimming_def
        handleDragEnd_fst handleTrimEnd_fst trimReset_def handleResizeEnd_def)
next
  case MouseLeave
  with assms(1) show ?thesis
    by (auto simp add: step_def no_stale_trim_def trimming_def handleDragEnd_fst)
next
  case ZoomInClick
  with assms(1) show ?thesis
    by (simp add: step_def no_stale_trim_def trimming_def)
next
  case ZoomOutClick
  with assms(1) show ?thesis
    by (simp add: step_def no_stale_trim_def trimming_def)
qed

lemma run_no_stale_trim:
  assumes "no_stale_trim s" and "presses_at_idle storyId items s evs"
  shows "no_stale_trim (fst (run storyId items s evs))"
  using assms
proof (induction evs arbitrary: s)
  case Nil
  then show ?case by simp
next
  case (Cons ev evs)
  from Cons.prems(2) have here: "if is_press ev then idle s else True"
    and rest: "presses_at_idle storyId items (fst (step storyId items s ev)) evs"
    by simp_all
  have "no_stale_trim (fst (step storyId items s ev))"
    using Cons.prems(1) here by (rule step_no_stale_trim)
  from Cons.IH [OF this rest] show ?case
    by (simp add: split_beta)
qed

lemma no_provisional_values_between_gestures:
  assumes "presses_at_idle storyId items (initial h el) evs"
    and "\<not> trimming (fst (run storyId items (initial h el) evs))"
  shows "tempTrimValues (fst (run storyId items (initial h el) evs)) = None"
proof -
  have "no_stale_trim (initial h el)"
    by (simp add: no_stale_trim_def initial_def)
  then have "no_stale_trim (fst (run storyId items (initial h el) evs))"
    using assms(1) by (rule run_no_stale_trim)
  with assms(2) show ?thesis
    by (simp add: no_stale_trim_def)
qed

end
